theory Spec2Isabelle
  imports Main "HOL-Library.Word"
begin

unbundle bit_operations_syntax

section \<open>Byte strings and the helpers of package strings\<close>

text \<open>
  Go strings and byte slices are sequences of bytes; both are modelled as lists of
  8-bit characters.  The functions below follow the Go standard library calls that
  \<^verbatim>\<open>store/store.go\<close> makes, each restricted to the way it is called there
  (a one-character separator or cutset).
\<close>

type_synonym bytes = string

definition slash :: char where
  "slash = CHR ''/''"

definition dash :: char where
  "dash = CHR ''-''"

definition dquote :: char where
  "dquote = CHR 0x22"

definition newline :: char where
  "newline = CHR 0x0A"

text \<open>\<^verbatim>\<open>strings.Trim(s, "/")\<close>: all leading and trailing slashes removed.\<close>

definition strings_Trim :: "char \<Rightarrow> string \<Rightarrow> string" where
  "strings_Trim c s = rev (dropWhile (\<lambda>x. x = c) (rev (dropWhile (\<lambda>x. x = c) s)))"

text \<open>\<^verbatim>\<open>strings.Split(s, sep)\<close> for a one-character separator: the pieces between
  the separators; a string without separator (also the empty one) is one piece.\<close>

fun strings_Split :: "char \<Rightarrow> string \<Rightarrow> string list" where
  "strings_Split sep [] = [[]]"
| "strings_Split sep (c # cs) =
     (if c = sep then [] # strings_Split sep cs
      else (case strings_Split sep cs of
              [] \<Rightarrow> [[c]]
            | p # ps \<Rightarrow> (c # p) # ps))"

text \<open>\<^verbatim>\<open>strings.SplitN(s, sep, 2)\<close>: cut at the first separator only.\<close>

definition strings_SplitN2 :: "char \<Rightarrow> string \<Rightarrow> string list" where
  "strings_SplitN2 sep s =
     (if sep \<in> set s
      then [takeWhile (\<lambda>x. x \<noteq> sep) s, tl (dropWhile (\<lambda>x. x \<noteq> sep) s)]
      else [s])"

definition strings_HasPrefix :: "string \<Rightarrow> string \<Rightarrow> bool" where
  "strings_HasPrefix s p = (take (length p) s = p)"

definition strings_TrimPrefix :: "string \<Rightarrow> string \<Rightarrow> string" where
  "strings_TrimPrefix s p = (if strings_HasPrefix s p then drop (length p) s else s)"

text \<open>\<^verbatim>\<open>strings.Join(elems, "/")\<close>.\<close>

fun strings_Join :: "string list \<Rightarrow> char \<Rightarrow> string" where
  "strings_Join [] sep = []"
| "strings_Join [e] sep = e"
| "strings_Join (e # es) sep = e @ sep # strings_Join es sep"

section \<open>Path resolution\<close>

text \<open>
  \<^verbatim>\<open>filepath.Clean\<close> on a Unix path, element by element as the library's loop
  does: empty elements and \<^verbatim>\<open>.\<close> are skipped; \<^verbatim>\<open>..\<close> removes the last
  element written when there is one that is not itself \<^verbatim>\<open>..\<close>, is kept at the
  front of a path that is not rooted, and is dropped at the root.
\<close>

fun clean_elems :: "bool \<Rightarrow> string list \<Rightarrow> string list \<Rightarrow> string list" where
  "clean_elems rooted out [] = out"
| "clean_elems rooted out (e # es) =
     (if e = [] \<or> e = ''.'' then clean_elems rooted out es
      else if e = ''..'' then
        (if out \<noteq> [] \<and> last out \<noteq> ''..'' then clean_elems rooted (butlast out) es
         else if \<not> rooted then clean_elems rooted (out @ [''..'']) es
         else clean_elems rooted out es)
      else clean_elems rooted (out @ [e]) es)"

definition filepath_Clean :: "string \<Rightarrow> string" where
  "filepath_Clean p =
     (if p = [] then ''.''
      else
        let rooted = (hd p = slash);
            out = clean_elems rooted [] (strings_Split slash p);
            s = (if rooted then [slash] else []) @ strings_Join out slash
        in if s = [] then ''.'' else s)"

text \<open>\<^verbatim>\<open>filepath.Join\<close>: the elements from the first non-empty one on, joined
  with slashes and cleaned; the empty string when every element is empty.\<close>

definition filepath_Join :: "string list \<Rightarrow> string" where
  "filepath_Join elem =
     (case dropWhile (\<lambda>e. e = []) elem of
        [] \<Rightarrow> []
      | es \<Rightarrow> filepath_Clean (strings_Join es slash))"

record FileStore =
  root :: string

definition NewFileStore :: "string \<Rightarrow> FileStore" where
  "NewFileStore r = \<lparr>root = r\<rparr>"

definition fullPath :: "FileStore \<Rightarrow> string \<Rightarrow> string \<Rightarrow> string" where
  "fullPath fs bucket key = filepath_Join [root fs, bucket, key]"

text \<open>
  \<^verbatim>\<open>parsePath\<close> returns the bucket and the key, or the message of the error
  (which the handlers send with status 400).
\<close>

definition parsePath :: "string \<Rightarrow> string + (string \<times> string)" where
  "parsePath path0 =
     (let path = strings_Trim slash path0 in
      if path = [] then Inl ''missing bucket and key''
      else
        (case strings_SplitN2 slash path of
           [bucket, key] \<Rightarrow>
             if bucket = [] then Inl ''empty bucket name''
             else if key = [] then Inl ''empty key name''
             else Inr (bucket, key)
         | _ \<Rightarrow> Inl ''missing key''))"

section \<open>Decimal numbers\<close>

text \<open>
  \<^verbatim>\<open>strconv.FormatInt(n, 10)\<close>, which is also what \<^verbatim>\<open>fmt.Sprintf("%d", n)\<close>
  prints.  The sizes and offsets of the handlers are \<^verbatim>\<open>int64\<close> values between
  \<open>-1\<close> and \<open>2^63 - 1\<close> (a file size, a parsed bound, or a difference of two
  such with the smaller one subtracted), so no operation on them wraps around and they
  are modelled as unbounded integers.
\<close>

definition digit_char :: "nat \<Rightarrow> char" where
  "digit_char d = ''0123456789'' ! d"

fun nat_digits :: "nat \<Rightarrow> string" where
  "nat_digits n =
     (if n < 10 then [digit_char n] else nat_digits (n div 10) @ [digit_char (n mod 10)])"

declare nat_digits.simps [simp del]

definition strconv_FormatInt :: "int \<Rightarrow> string" where
  "strconv_FormatInt i =
     (if i < 0 then CHR ''-'' # nat_digits (nat (- i)) else nat_digits (nat i))"

text \<open>
  \<^verbatim>\<open>strconv.ParseUint(s, 10, 64)\<close> and \<^verbatim>\<open>strconv.ParseInt(s, 10, 64)\<close>: an
  optional sign, then one or more decimal digits; a value outside the 64-bit range is
  a range error.  The handlers only look at whether an error came back.
\<close>

datatype num_error = ErrSyntax | ErrRange

definition is_digit :: "char \<Rightarrow> bool" where
  "is_digit c = (48 \<le> (of_char c :: nat) \<and> (of_char c :: nat) \<le> 57)"

definition digits_value :: "string \<Rightarrow> int" where
  "digits_value ds = foldl (\<lambda>a c. 10 * a + (of_char c - 48)) 0 ds"

definition strconv_ParseUint :: "string \<Rightarrow> num_error + int" where
  "strconv_ParseUint s =
     (if s = [] then Inl ErrSyntax
      else if \<not> list_all is_digit s then Inl ErrSyntax
      else if 2 ^ 64 \<le> digits_value s then Inl ErrRange
      else Inr (digits_value s))"

definition strconv_ParseInt :: "string \<Rightarrow> num_error + int" where
  "strconv_ParseInt s0 =
     (if s0 = [] then Inl ErrSyntax
      else
        let neg = (hd s0 = CHR ''-'');
            s = (if hd s0 = CHR ''+'' \<or> hd s0 = CHR ''-'' then tl s0 else s0)
        in case strconv_ParseUint s of
             Inl ErrSyntax \<Rightarrow> Inl ErrSyntax
           | Inl ErrRange \<Rightarrow> Inl ErrRange
           | Inr un \<Rightarrow>
               if \<not> neg \<and> 2 ^ 63 \<le> un then Inl ErrRange
               else if neg \<and> 2 ^ 63 < un then Inl ErrRange
               else Inr (if neg then - un else un))"

section \<open>The digest: SHA-256 and its hex encoding\<close>

text \<open>
  \<^verbatim>\<open>crypto/sha256\<close> as the standard defines it (FIPS 180-4): the message is padded
  to a multiple of 64 bytes and folded block by block into eight 32-bit words.
\<close>

type_synonym word32 = "32 word"

type_synonym sha_state =
  "word32 \<times> word32 \<times> word32 \<times> word32 \<times> word32 \<times> word32 \<times> word32 \<times> word32"

definition sha256_K :: "word32 list" where
  "sha256_K =
     [0x428A2F98, 0x71374491, 0xB5C0FBCF, 0xE9B5DBA5, 0x3956C25B, 0x59F111F1, 0x923F82A4, 0xAB1C5ED5] @
     [0xD807AA98, 0x12835B01, 0x243185BE, 0x550C7DC3, 0x72BE5D74, 0x80DEB1FE, 0x9BDC06A7, 0xC19BF174] @
     [0xE49B69C1, 0xEFBE4786, 0x0FC19DC6, 0x240CA1CC, 0x2DE92C6F, 0x4A7484AA, 0x5CB0A9DC, 0x76F988DA] @
     [0x983E5152, 0xA831C66D, 0xB00327C8, 0xBF597FC7, 0xC6E00BF3, 0xD5A79147, 0x06CA6351, 0x14292967] @
     [0x27B70A85, 0x2E1B2138, 0x4D2C6DFC, 0x53380D13, 0x650A7354, 0x766A0ABB, 0x81C2C92E, 0x92722C85] @
     [0xA2BFE8A1, 0xA81A664B, 0xC24B8B70, 0xC76C51A3, 0xD192E819, 0xD6990624, 0xF40E3585, 0x106AA070] @
     [0x19A4C116, 0x1E376C08, 0x2748774C, 0x34B0BCB5, 0x391C0CB3, 0x4ED8AA4A, 0x5B9CCA4F, 0x682E6FF3] @
     [0x748F82EE, 0x78A5636F, 0x84C87814, 0x8CC70208, 0x90BEFFFA, 0xA4506CEB, 0xBEF9A3F7, 0xC67178F2]"

definition sha256_init :: sha_state where
  "sha256_init =
     (0x6A09E667, 0xBB67AE85, 0x3C6EF372, 0xA54FF53A, 0x510E527F, 0x9B05688C, 0x1F83D9AB, 0x5BE0CD19)"

definition rotr :: "nat \<Rightarrow> word32 \<Rightarrow> word32" where
  "rotr n x = drop_bit n x OR push_bit (32 - n) x"

definition Ch :: "word32 \<Rightarrow> word32 \<Rightarrow> word32 \<Rightarrow> word32" where
  "Ch x y z = (x AND y) XOR (NOT x AND z)"

definition Maj :: "word32 \<Rightarrow> word32 \<Rightarrow> word32 \<Rightarrow> word32" where
  "Maj x y z = (x AND y) XOR (x AND z) XOR (y AND z)"

definition bsig0 :: "word32 \<Rightarrow> word32" where
  "bsig0 x = rotr 2 x XOR rotr 13 x XOR rotr 22 x"

definition bsig1 :: "word32 \<Rightarrow> word32" where
  "bsig1 x = rotr 6 x XOR rotr 11 x XOR rotr 25 x"

definition ssig0 :: "word32 \<Rightarrow> word32" where
  "ssig0 x = rotr 7 x XOR rotr 18 x XOR drop_bit 3 x"

definition ssig1 :: "word32 \<Rightarrow> word32" where
  "ssig1 x = rotr 17 x XOR rotr 19 x XOR drop_bit 10 x"

definition be_word :: "bytes \<Rightarrow> word32" where
  "be_word bs = foldl (\<lambda>w c. push_bit 8 w OR of_nat (of_char c)) 0 bs"

definition be_bytes :: "word32 \<Rightarrow> bytes" where
  "be_bytes w = map (\<lambda>i. char_of (uint (drop_bit (8 * i) w))) [3, 2, 1, 0]"

definition sha256_pad :: "bytes \<Rightarrow> bytes" where
  "sha256_pad m =
     m @ [CHR 0x80] @ replicate ((119 - length m mod 64) mod 64) (CHR 0x00) @
     map (\<lambda>i. char_of (uint (drop_bit (8 * i) (8 * of_nat (length m) :: 64 word))))
       [7, 6, 5, 4, 3, 2, 1, 0]"

definition sha256_blocks :: "bytes \<Rightarrow> word32 list list" where
  "sha256_blocks m =
     map (\<lambda>i. map (\<lambda>j. be_word (take 4 (drop (64 * i + 4 * j) m))) [0..<16])
       [0..<length m div 64]"

fun sha256_schedule :: "nat \<Rightarrow> word32 list \<Rightarrow> word32 list" where
  "sha256_schedule 0 w = w"
| "sha256_schedule (Suc n) w =
     sha256_schedule n
       (w @ [ssig1 (w ! (length w - 2)) + w ! (length w - 7) +
             ssig0 (w ! (length w - 15)) + w ! (length w - 16)])"

fun sha256_round :: "sha_state \<Rightarrow> word32 \<times> word32 \<Rightarrow> sha_state" where
  "sha256_round (a, b, c, d, e, f, g, h) (k, w) =
     (let t1 = h + bsig1 e + Ch e f g + k + w;
          t2 = bsig0 a + Maj a b c
      in (t1 + t2, a, b, c, d + t1, e, f, g))"

fun sha256_add :: "sha_state \<Rightarrow> sha_state \<Rightarrow> sha_state" where
  "sha256_add (a, b, c, d, e, f, g, h) (a', b', c', d', e', f', g', h') =
     (a + a', b + b', c + c', d + d', e + e', f + f', g + g', h + h')"

definition sha256_block :: "sha_state \<Rightarrow> word32 list \<Rightarrow> sha_state" where
  "sha256_block s blk =
     sha256_add s (foldl sha256_round s (zip sha256_K (sha256_schedule 48 blk)))"

fun sha256_out :: "sha_state \<Rightarrow> bytes" where
  "sha256_out (a, b, c, d, e, f, g, h) = concat (map be_bytes [a, b, c, d, e, f, g, h])"

definition sha256_digest :: "bytes \<Rightarrow> bytes" where
  "sha256_digest m =
     sha256_out (foldl sha256_block sha256_init (sha256_blocks (sha256_pad m)))"

text \<open>
  The \<^verbatim>\<open>hash.Hash\<close> value returned by \<^verbatim>\<open>sha256.New()\<close>: writes extend the
  message, and \<^verbatim>\<open>Sum(nil)\<close> is the digest of everything written so far.  A write
  to a hash never fails.
\<close>

type_synonym hasher = bytes

definition sha256_New :: hasher where
  "sha256_New = []"

definition hasher_Write :: "hasher \<Rightarrow> bytes \<Rightarrow> hasher" where
  "hasher_Write h p = h @ p"

definition hasher_Sum :: "hasher \<Rightarrow> bytes" where
  "hasher_Sum h = sha256_digest h"

definition hexdigit :: "nat \<Rightarrow> char" where
  "hexdigit n = ''0123456789abcdef'' ! n"

definition hex_EncodeToString :: "bytes \<Rightarrow> string" where
  "hex_EncodeToString bs =
     concat (map (\<lambda>c. [hexdigit (of_char c div 16), hexdigit (of_char c mod 16)]) bs)"

section \<open>Requests, responses and the filesystem\<close>

text \<open>
  A request as the handlers read it: the method, \<^verbatim>\<open>r.URL.Path\<close>, the value of
  \<^verbatim>\<open>r.Header.Get("Range")\<close> (empty when the header is absent) and the body.  The
  body is the sequence of chunks that successive reads deliver; after the last chunk a
  read returns end-of-file, or an error when the client went away
  (\<open>Body_err\<close>).  The request carries no conditional header
  (\<^verbatim>\<open>If-Match\<close>, \<^verbatim>\<open>If-None-Match\<close>, \<^verbatim>\<open>If-Modified-Since\<close>, ...): the repository's
  code reads none.
\<close>

record request =
  Method :: string
  URL_Path :: string
  Range_hdr :: string
  Body_chunks :: "bytes list"
  Body_err :: bool

text \<open>
  What a handler has done to its \<^verbatim>\<open>http.ResponseWriter\<close>: the status code
  written, the header map and the bytes of the body.  Times are not modelled, so the
  \<^verbatim>\<open>Last-Modified\<close> header is left out, and so are the headers that
  \<^verbatim>\<open>http.ServeContent\<close> adds on its own (\<^verbatim>\<open>Content-Type\<close>, \<^verbatim>\<open>Accept-Ranges\<close>).
\<close>

record response =
  Status :: nat
  Header :: "string \<rightharpoonup> string"
  Body :: bytes

definition new_response :: response where
  "new_response = \<lparr>Status = 0, Header = Map.empty, Body = []\<rparr>"

definition Header_Set :: "response \<Rightarrow> string \<Rightarrow> string \<Rightarrow> response" where
  "Header_Set w k v = w\<lparr>Header := (Header w)(k \<mapsto> v)\<rparr>"

definition WriteHeader :: "response \<Rightarrow> nat \<Rightarrow> response" where
  "WriteHeader w c = w\<lparr>Status := c\<rparr>"

definition Write :: "response \<Rightarrow> bytes \<Rightarrow> response" where
  "Write w p = w\<lparr>Body := Body w @ p\<rparr>"

text \<open>\<^verbatim>\<open>http.Error\<close> (as of Go 1.22, the version the repository's README asks
  for; later versions also delete a \<^verbatim>\<open>Content-Length\<close> header set before) and
  \<^verbatim>\<open>http.NotFound\<close>.\<close>

definition http_Error :: "response \<Rightarrow> string \<Rightarrow> nat \<Rightarrow> response" where
  "http_Error w msg c =
     Write
       (WriteHeader
          (Header_Set (Header_Set w ''Content-Type'' ''text/plain; charset=utf-8'')
             ''X-Content-Type-Options'' ''nosniff'')
          c)
       (msg @ [newline])"

definition http_NotFound :: "response \<Rightarrow> response" where
  "http_NotFound w = http_Error w ''404 page not found'' 404"

text \<open>
  The filesystem maps the path of every regular file to its content; paths are
  the cleaned paths that \<open>fullPath\<close> returns, all relative to the same working
  directory.  Directories are not part of the state.

  What the state does not decide is decided by the environment of one request, given
  as a record of faults: whether \<^verbatim>\<open>os.MkdirAll\<close>, \<^verbatim>\<open>os.Create\<close>,
  \<^verbatim>\<open>os.Open\<close>, \<^verbatim>\<open>file.Stat\<close> or \<^verbatim>\<open>os.Remove\<close> (the one call of a
  delete request, or the one call with which a store request cleans up after a failed
  copy) fail for a reason other than a missing file; how many bytes the destination file
  accepts before a write to it fails (\<open>write_limit\<close>); and how many bytes
  the digest pass and the body pass over an opened file read before a read fails
  (\<open>digest_read_limit\<close>, \<open>body_read_limit\<close>).  \<open>None\<close> means no failure.
\<close>

type_synonym filesys = "string \<rightharpoonup> bytes"

record faults =
  mkdirall_err :: bool
  create_err :: bool
  write_limit :: "nat option"
  open_err :: bool
  stat_err :: bool
  digest_read_limit :: "nat option"
  body_read_limit :: "nat option"
  remove_err :: bool

definition no_faults :: faults where
  "no_faults =
     \<lparr>mkdirall_err = False, create_err = False, write_limit = None, open_err = False,
      stat_err = False, digest_read_limit = None, body_read_limit = None,
      remove_err = False\<rparr>"

text \<open>An opened file (\<^verbatim>\<open>*os.File\<close>): its path, its content and the read offset.\<close>

record os_File =
  fname :: string
  fdata :: bytes
  foffset :: nat

datatype os_error = NotExist | OtherError

definition os_Open :: "faults \<Rightarrow> filesys \<Rightarrow> string \<Rightarrow> os_error + os_File" where
  "os_Open flt st path =
     (if open_err flt then Inl OtherError
      else case st path of
             None \<Rightarrow> Inl NotExist
           | Some d \<Rightarrow> Inr \<lparr>fname = path, fdata = d, foffset = 0\<rparr>)"

text \<open>\<^verbatim>\<open>os.Create\<close>: the file exists and is empty afterwards.\<close>

definition os_Create :: "filesys \<Rightarrow> string \<Rightarrow> filesys" where
  "os_Create st path = st(path \<mapsto> [])"

text \<open>\<^verbatim>\<open>os.Remove\<close>: the error, if any, and the filesystem afterwards.\<close>

definition os_Remove :: "bool \<Rightarrow> filesys \<Rightarrow> string \<Rightarrow> os_error option \<times> filesys" where
  "os_Remove fails st path =
     (if fails then (Some OtherError, st)
      else case st path of
             None \<Rightarrow> (Some NotExist, st)
           | Some d \<Rightarrow> (None, st(path := None)))"

text \<open>
  One \<^verbatim>\<open>Write\<close> on the file that \<^verbatim>\<open>os.Create\<close> returned: the bytes are appended
  to the file; when the limit is reached only the bytes that still fit are written
  and the write fails.
\<close>

definition file_Write :: "nat option \<Rightarrow> string \<Rightarrow> bytes \<Rightarrow> filesys \<Rightarrow> bool \<times> filesys" where
  "file_Write lim path p st =
     (let cur = (case st path of None \<Rightarrow> [] | Some d \<Rightarrow> d);
          room = (case lim of None \<Rightarrow> length p | Some n \<Rightarrow> n - length cur)
      in if length p \<le> room then (True, st(path \<mapsto> cur @ p))
         else (False, st(path \<mapsto> cur @ take room p)))"

text \<open>
  \<^verbatim>\<open>io.Copy(io.MultiWriter(file, hasher), r.Body)\<close>: every chunk read from the body
  is written to the file and then to the hash; the multi-writer stops at the first
  writer that fails.  When the chunks are used up the copy ends well at end-of-file
  and fails at a read error.  The result is whether the copy succeeded, the
  filesystem and the hash.
\<close>

fun copy_chunks ::
  "nat option \<Rightarrow> string \<Rightarrow> bool \<Rightarrow> bytes list \<Rightarrow> filesys \<Rightarrow> hasher \<Rightarrow> bool \<times> filesys \<times> hasher"
where
  "copy_chunks lim path rd_err [] st h = (\<not> rd_err, st, h)"
| "copy_chunks lim path rd_err (c # cs) st h =
     (case file_Write lim path c st of
        (False, st') \<Rightarrow> (False, st', h)
      | (True, st') \<Rightarrow> copy_chunks lim path rd_err cs st' (hasher_Write h c))"

text \<open>
  Reading an opened file from its offset: to the end (\<^verbatim>\<open>io.Copy\<close>) or for \<open>n\<close>
  bytes (\<^verbatim>\<open>io.CopyN\<close>).  With a read limit \<open>Some k\<close> the read that follows the
  first \<open>k\<close> bytes fails.  The result is whether the copy succeeded, the bytes
  delivered and the file with its new offset.
\<close>

definition io_CopyN :: "nat option \<Rightarrow> os_File \<Rightarrow> nat \<Rightarrow> bool \<times> bytes \<times> os_File" where
  "io_CopyN lim f n =
     (let avail = take n (drop (foffset f) (fdata f));
          got = (case lim of None \<Rightarrow> avail | Some k \<Rightarrow> take k avail)
      in (length got = n, got, f\<lparr>foffset := foffset f + length got\<rparr>))"

definition io_Copy :: "nat option \<Rightarrow> os_File \<Rightarrow> bool \<times> bytes \<times> os_File" where
  "io_Copy lim f =
     (let rest = drop (foffset f) (fdata f)
      in case lim of
           None \<Rightarrow> (True, rest, f\<lparr>foffset := foffset f + length rest\<rparr>)
         | Some k \<Rightarrow>
             if k \<le> length rest then (False, take k rest, f\<lparr>foffset := foffset f + k\<rparr>)
             else (True, rest, f\<lparr>foffset := foffset f + length rest\<rparr>))"

section \<open>The handlers\<close>

definition calculateETag :: "nat option \<Rightarrow> os_File \<Rightarrow> string \<times> os_File" where
  "calculateETag lim file0 =
     (let hasher = sha256_New;
          currentPos = foffset file0;
          file1 = file0\<lparr>foffset := 0\<rparr>
      in case io_Copy lim file1 of
           (False, got, file2) \<Rightarrow> ([], file2)
         | (True, got, file2) \<Rightarrow>
             (hex_EncodeToString (hasher_Sum (hasher_Write hasher got)),
              file2\<lparr>foffset := currentPos\<rparr>))"

text \<open>
  The first half of \<^verbatim>\<open>handleRangeRequest\<close> (reading the header): the two bounds,
  or the message of the 400 response.
\<close>

definition rangeBounds :: "int \<Rightarrow> string \<Rightarrow> string + (int \<times> int)" where
  "rangeBounds fileSize rangeHeader =
     (if \<not> strings_HasPrefix rangeHeader ''bytes='' then Inl ''invalid range header''
      else
        (case strings_Split dash (strings_TrimPrefix rangeHeader ''bytes='') of
           [p0, p1] \<Rightarrow>
             (case (if p0 \<noteq> [] then strconv_ParseInt p0 else Inr 0) of
                Inl e \<Rightarrow> Inl ''invalid range start''
              | Inr start \<Rightarrow>
                  if start < 0 then Inl ''invalid range start''
                  else if p1 \<noteq> [] then
                    (case strconv_ParseInt p1 of
                       Inl e \<Rightarrow> Inl ''invalid range end''
                     | Inr end \<Rightarrow>
                         if end < 0 then Inl ''invalid range end'' else Inr (start, end))
                  else Inr (start, fileSize - 1))
         | _ \<Rightarrow> Inl ''invalid range format''))"

definition handleRangeRequest ::
  "faults \<Rightarrow> response \<Rightarrow> os_File \<Rightarrow> int \<Rightarrow> string \<Rightarrow> response"
where
  "handleRangeRequest flt w file fileSize rangeHeader =
     (case rangeBounds fileSize rangeHeader of
        Inl msg \<Rightarrow> http_Error w msg 400
      | Inr (start, end0) \<Rightarrow>
          if start > end0 \<or> start \<ge> fileSize then
            http_Error
              (Header_Set w ''Content-Range'' (''bytes */'' @ strconv_FormatInt fileSize))
              ''range not satisfiable'' 416
          else
            let end = (if end0 \<ge> fileSize then fileSize - 1 else end0);
                contentLength = end - start + 1;
                w1 = Header_Set w ''Content-Range''
                       (''bytes '' @ strconv_FormatInt start @ ''-'' @ strconv_FormatInt end @
                        ''/'' @ strconv_FormatInt fileSize);
                w2 = Header_Set w1 ''Content-Length'' (strconv_FormatInt contentLength);
                w3 = WriteHeader w2 206;
                file1 = file\<lparr>foffset := nat start\<rparr>
            in case io_CopyN (body_read_limit flt) file1 (nat contentLength) of
                 (ok, got, file2) \<Rightarrow> Write w3 got)"

text \<open>
  \<^verbatim>\<open>http.ServeContent\<close> for a request without \<^verbatim>\<open>Range\<close> and without conditional
  headers: the size is found by seeking, the status is 200 and the whole content is
  copied to the response; a read error cuts the body short, the status being written
  already.
\<close>

definition http_ServeContent :: "faults \<Rightarrow> response \<Rightarrow> os_File \<Rightarrow> response" where
  "http_ServeContent flt w content =
     (let size = length (fdata content);
          w1 = Header_Set w ''Content-Length'' (strconv_FormatInt (int size));
          w2 = WriteHeader w1 200
      in case io_CopyN (body_read_limit flt) (content\<lparr>foffset := 0\<rparr>) size of
           (ok, got, content') \<Rightarrow> Write w2 got)"

text \<open>\<^verbatim>\<open>json.NewEncoder(w).Encode(map[string]string{"etag": etag})\<close>: the object
  on one line, followed by a newline.\<close>

definition json_Encode_etag :: "string \<Rightarrow> bytes" where
  "json_Encode_etag etag =
     ''{'' @ [dquote] @ ''etag'' @ [dquote] @ '':'' @ [dquote] @ etag @ [dquote] @ ''}'' @
     [newline]"

text \<open>
  \<^verbatim>\<open>handlePut\<close>.  The directories that \<^verbatim>\<open>os.MkdirAll\<close> creates are not part
  of the state, so the call only succeeds or fails.  After a failed copy the handler
  calls \<^verbatim>\<open>os.Remove\<close> on the destination and discards the result: the
  filesystem is the one that the call leaves, whether it has removed the file or not.
\<close>

definition handlePut :: "FileStore \<Rightarrow> faults \<Rightarrow> filesys \<Rightarrow> request \<Rightarrow> filesys \<times> response" where
  "handlePut fs flt st r =
     (let w = new_response in
      case parsePath (URL_Path r) of
        Inl err \<Rightarrow> (st, http_Error w err 400)
      | Inr (bucket, key) \<Rightarrow>
          let path = fullPath fs bucket key in
          if mkdirall_err flt then (st, http_Error w ''failed to create directory'' 500)
          else if create_err flt then (st, http_Error w ''failed to create file'' 500)
          else
            (case copy_chunks (write_limit flt) path (Body_err r) (Body_chunks r)
                    (os_Create st path) sha256_New of
               (False, st', hasher) \<Rightarrow>
                 (snd (os_Remove (remove_err flt) st' path),
                  http_Error w ''failed to write file'' 500)
             | (True, st', hasher) \<Rightarrow>
                 let etag = hex_EncodeToString (hasher_Sum hasher);
                     w1 = Header_Set w ''Content-Type'' ''application/json'';
                     w2 = WriteHeader w1 200
                 in (st', Write w2 (json_Encode_etag etag))))"

definition handleGet :: "FileStore \<Rightarrow> faults \<Rightarrow> filesys \<Rightarrow> request \<Rightarrow> response" where
  "handleGet fs flt st r =
     (let w = new_response in
      case parsePath (URL_Path r) of
        Inl err \<Rightarrow> http_Error w err 400
      | Inr (bucket, key) \<Rightarrow>
          (case os_Open flt st (fullPath fs bucket key) of
             Inl NotExist \<Rightarrow> http_NotFound w
           | Inl OtherError \<Rightarrow> http_Error w ''failed to open file'' 500
           | Inr file \<Rightarrow>
               if stat_err flt then http_Error w ''failed to stat file'' 500
               else
                 let size = int (length (fdata file));
                     w1 = Header_Set w ''Content-Length'' (strconv_FormatInt size)
                 in case calculateETag (digest_read_limit flt) file of
                      (etag, file1) \<Rightarrow>
                        let w2 = (if etag \<noteq> []
                                  then Header_Set w1 ''ETag'' ([dquote] @ etag @ [dquote])
                                  else w1)
                        in if Range_hdr r \<noteq> []
                           then handleRangeRequest flt w2 file1 size (Range_hdr r)
                           else http_ServeContent flt w2 (file1\<lparr>foffset := 0\<rparr>)))"

definition handleHead :: "FileStore \<Rightarrow> faults \<Rightarrow> filesys \<Rightarrow> request \<Rightarrow> response" where
  "handleHead fs flt st r =
     (let w = new_response in
      case parsePath (URL_Path r) of
        Inl err \<Rightarrow> http_Error w err 400
      | Inr (bucket, key) \<Rightarrow>
          (case os_Open flt st (fullPath fs bucket key) of
             Inl NotExist \<Rightarrow> http_NotFound w
           | Inl OtherError \<Rightarrow> http_Error w ''failed to open file'' 500
           | Inr file \<Rightarrow>
               if stat_err flt then http_Error w ''failed to stat file'' 500
               else
                 let size = int (length (fdata file));
                     w1 = Header_Set w ''Content-Length'' (strconv_FormatInt size)
                 in case calculateETag (digest_read_limit flt) file of
                      (etag, file1) \<Rightarrow>
                        let w2 = (if etag \<noteq> []
                                  then Header_Set w1 ''ETag'' ([dquote] @ etag @ [dquote])
                                  else w1)
                        in WriteHeader w2 200))"

definition handleDelete :: "FileStore \<Rightarrow> faults \<Rightarrow> filesys \<Rightarrow> request \<Rightarrow> filesys \<times> response" where
  "handleDelete fs flt st r =
     (let w = new_response in
      case parsePath (URL_Path r) of
        Inl err \<Rightarrow> (st, http_Error w err 400)
      | Inr (bucket, key) \<Rightarrow>
          (case os_Remove (remove_err flt) st (fullPath fs bucket key) of
             (Some NotExist, st') \<Rightarrow> (st', http_NotFound w)
           | (Some OtherError, st') \<Rightarrow> (st', http_Error w ''failed to delete file'' 500)
           | (None, st') \<Rightarrow> (st', WriteHeader w 204)))"

definition Handler :: "FileStore \<Rightarrow> faults \<Rightarrow> filesys \<Rightarrow> request \<Rightarrow> filesys \<times> response" where
  "Handler fs flt st r =
     (if Method r = ''PUT'' then handlePut fs flt st r
      else if Method r = ''GET'' then (st, handleGet fs flt st r)
      else if Method r = ''HEAD'' then (st, handleHead fs flt st r)
      else if Method r = ''DELETE'' then handleDelete fs flt st r
      else (st, http_Error new_response ''method not allowed'' 405))"

text \<open>
  The filesystem states that a store request goes through, one per system call that
  changes the filesystem: after \<^verbatim>\<open>os.Create\<close>, after each write of the copy, and
  after the \<^verbatim>\<open>os.Remove\<close> that follows a failed copy.  A request of another client that is
  served while the store is under way runs on one of these states.
\<close>

fun copy_states :: "nat option \<Rightarrow> string \<Rightarrow> bytes list \<Rightarrow> filesys \<Rightarrow> filesys list" where
  "copy_states lim path [] st = []"
| "copy_states lim path (c # cs) st =
     (case file_Write lim path c st of
        (False, st') \<Rightarrow> [st']
      | (True, st') \<Rightarrow> st' # copy_states lim path cs st')"

definition handlePut_states :: "FileStore \<Rightarrow> faults \<Rightarrow> filesys \<Rightarrow> request \<Rightarrow> filesys list" where
  "handlePut_states fs flt st r =
     (case parsePath (URL_Path r) of
        Inl err \<Rightarrow> []
      | Inr (bucket, key) \<Rightarrow>
          let path = fullPath fs bucket key in
          if mkdirall_err flt \<or> create_err flt then []
          else
            let st0 = os_Create st path;
                sts = st0 # copy_states (write_limit flt) path (Body_chunks r) st0
            in (case copy_chunks (write_limit flt) path (Body_err r) (Body_chunks r) st0
                       sha256_New of
                  (False, st', hasher) \<Rightarrow> sts @ [snd (os_Remove (remove_err flt) st' path)]
                | (True, st', hasher) \<Rightarrow> sts))"

section \<open>Notions used in the statements\<close>

text \<open>The bytes that a copy with a read limit delivers out of the bytes asked for.\<close>

definition limited :: "nat option \<Rightarrow> bytes \<Rightarrow> bytes" where
  "limited lim bs = (case lim of None \<Rightarrow> bs | Some k \<Rightarrow> take k bs)"

text \<open>A file of \<open>k\<close> bytes is within the write limit.\<close>

definition fits :: "nat option \<Rightarrow> nat \<Rightarrow> bool" where
  "fits lim k = (case lim of None \<Rightarrow> True | Some n \<Rightarrow> k \<le> n)"

text \<open>The digest pass of \<open>calculateETag\<close> over a file with the given content
  succeeds: its \<^verbatim>\<open>io.Copy\<close> returns no error.\<close>

definition digest_pass_ok :: "faults \<Rightarrow> bytes \<Rightarrow> bool" where
  "digest_pass_ok flt content =
     fst (io_Copy (digest_read_limit flt) \<lparr>fname = [], fdata = content, foffset = 0\<rparr>)"

text \<open>The response of \<open>handleGet\<close> and \<open>handleHead\<close> at the point where
  both have set their headers.\<close>

definition base_headers :: "faults \<Rightarrow> bytes \<Rightarrow> response" where
  "base_headers flt content =
     (let w1 = Header_Set new_response ''Content-Length''
                 (strconv_FormatInt (int (length content)))
      in if digest_pass_ok flt content
         then Header_Set w1 ''ETag''
                ([dquote] @ hex_EncodeToString (sha256_digest content) @ [dquote])
         else w1)"

text \<open>The store of \<^verbatim>\<open>main.go\<close>, and the requests and the filesystem of the
  scenario \<^verbatim>\<open>/docs/readme.txt\<close> with content \<^verbatim>\<open>hello\<close>.\<close>

definition store0 :: FileStore where
  "store0 = NewFileStore ''./data''"

definition get_request :: "string \<Rightarrow> string \<Rightarrow> request" where
  "get_request p rg =
     \<lparr>Method = ''GET'', URL_Path = p, Range_hdr = rg, Body_chunks = [], Body_err = False\<rparr>"

definition head_request :: "string \<Rightarrow> request" where
  "head_request p =
     \<lparr>Method = ''HEAD'', URL_Path = p, Range_hdr = [], Body_chunks = [], Body_err = False\<rparr>"

definition put_request :: "string \<Rightarrow> bytes list \<Rightarrow> bool \<Rightarrow> request" where
  "put_request p cs e =
     \<lparr>Method = ''PUT'', URL_Path = p, Range_hdr = [], Body_chunks = cs, Body_err = e\<rparr>"

definition hello_fs :: filesys where
  "hello_fs = [''data/docs/readme.txt'' \<mapsto> ''hello'']"

section \<open>Basic facts\<close>

subsection \<open>Values of the scenario\<close>

lemmas path_defs =
  parsePath_def strings_Trim_def strings_SplitN2_def fullPath_def filepath_Join_def
  filepath_Clean_def slash_def NewFileStore_def

lemma parsePath_readme: "parsePath ''/docs/readme.txt'' = Inr (''docs'', ''readme.txt'')"
  by (simp add: path_defs)

lemma fullPath_readme: "fullPath store0 ''docs'' ''readme.txt'' = ''data/docs/readme.txt''"
  by (simp add: path_defs store0_def)

lemma FormatInt_small:
  "strconv_FormatInt 0 = ''0''" "strconv_FormatInt 1 = ''1''" "strconv_FormatInt 2 = ''2''"
  "strconv_FormatInt 3 = ''3''" "strconv_FormatInt 4 = ''4''"
  by code_simp+

lemma FormatInt_5: "strconv_FormatInt 5 = ''5''"
  by code_simp




lemma rangeBounds_1_3: "rangeBounds 5 ''bytes=1-3'' = Inr (1, 3)"
  by code_simp


lemma rangeBounds_0_1: "rangeBounds 5 ''bytes=0-1'' = Inr (0, 1)"
  by code_simp

lemma hello_hyps:
  "Method (get_request p rg) = ''GET''"
  "URL_Path (get_request p rg) = p"
  "Range_hdr (get_request p rg) = rg"
  "hello_fs (fullPath store0 ''docs'' ''readme.txt'') = Some ''hello''"
  "\<not> open_err no_faults" "\<not> stat_err no_faults"
  "body_read_limit no_faults = None" "digest_read_limit no_faults = None"
  by (simp_all add: get_request_def fullPath_readme hello_fs_def no_faults_def)

lemma put_hyps:
  "Method (put_request p cs e) = ''PUT''"
  "URL_Path (put_request p cs e) = p"
  "Body_chunks (put_request p cs e) = cs"
  "Body_err (put_request p cs e) = e"
  "\<not> mkdirall_err no_faults" "\<not> create_err no_faults" "write_limit no_faults = None"
  by (simp_all add: put_request_def no_faults_def)

lemma digest_fails_hello:
  "\<not> digest_pass_ok (no_faults\<lparr>digest_read_limit := Some 2\<rparr>) ''hello''"
  by (simp add: digest_pass_ok_def io_Copy_def no_faults_def)

subsection \<open>Responses\<close>

lemma Status_simps [simp]:
  "Status (Header_Set w k v) = Status w"
  "Status (WriteHeader w c) = c"
  "Status (Write w p) = Status w"
  "Status (http_Error w msg c) = c"
  "Status (http_NotFound w) = 404"
  by (simp_all add: Header_Set_def WriteHeader_def Write_def http_Error_def http_NotFound_def)

lemma Header_simps [simp]:
  "Header (Header_Set w k v) = (Header w)(k \<mapsto> v)"
  "Header (WriteHeader w c) = Header w"
  "Header (Write w p) = Header w"
  "Header new_response = Map.empty"
  by (simp_all add: Header_Set_def WriteHeader_def Write_def new_response_def)

lemma Header_http_Error [simp]:
  "Header (http_Error w msg c) =
     (Header w)(''Content-Type'' \<mapsto> ''text/plain; charset=utf-8'',
                ''X-Content-Type-Options'' \<mapsto> ''nosniff'')"
  by (simp add: http_Error_def)

lemma Body_simps [simp]:
  "Body (Header_Set w k v) = Body w"
  "Body (WriteHeader w c) = Body w"
  "Body (Write w p) = Body w @ p"
  "Body new_response = []"
  "Body (http_Error w msg c) = Body w @ msg @ [newline]"
  by (simp_all add: Header_Set_def WriteHeader_def Write_def new_response_def http_Error_def)

subsection \<open>The digest\<close>

lemma length_sha256_out: "length (sha256_out s) = 32"
  by (cases s rule: sha256_out.cases) (simp add: be_bytes_def)

lemma length_sha256_digest: "length (sha256_digest m) = 32"
  by (simp add: sha256_digest_def length_sha256_out)

lemma length_hex_EncodeToString: "length (hex_EncodeToString bs) = 2 * length bs"
  by (induction bs) (simp_all add: hex_EncodeToString_def)

lemma etag_nonempty: "hex_EncodeToString (sha256_digest m) \<noteq> []"
proof
  assume "hex_EncodeToString (sha256_digest m) = []"
  then have "length (hex_EncodeToString (sha256_digest m)) = 0" by simp
  then show False by (simp add: length_hex_EncodeToString length_sha256_digest)
qed

lemma sha256_empty:
  "hex_EncodeToString (sha256_digest []) =
     ''e3b0c44298fc1c149afbf4c8996fb92427ae41e4649b934ca495991b7852b855''"
  by code_simp

lemma sha256_abc:
  "hex_EncodeToString (sha256_digest ''abc'') =
     ''ba7816bf8f01cfea414140de5dae2223b00361a396177a9cb410ff61f20015ad''"
  by code_simp

lemma sha256_hello:
  "hex_EncodeToString (sha256_digest ''hello'') =
     ''2cf24dba5fb0a30e26e83b2ac5b9e29e1b161e5c1fa7425e73043362938b9824''"
  by code_simp

subsection \<open>Decimal numbers\<close>

lemma digit_char_props:
  assumes "d < 10"
  shows "is_digit (digit_char d)" and "(of_char (digit_char d) :: int) = 48 + int d"
proof -
  from assms have "d \<in> {0, 1, 2, 3, 4, 5, 6, 7, 8, 9}"
    by auto
  then have "is_digit (digit_char d) \<and> (of_char (digit_char d) :: int) = 48 + int d"
    by (auto simp: digit_char_def is_digit_def)
  then show "is_digit (digit_char d)" and "(of_char (digit_char d) :: int) = 48 + int d"
    by simp_all
qed

lemma nat_digits_nonempty: "nat_digits n \<noteq> []"
  by (subst nat_digits.simps) simp

lemma nat_digits_is_digit: "list_all is_digit (nat_digits n)"
proof (induction n rule: nat_digits.induct)
  case (1 n)
  show ?case
  proof (cases "n < 10")
    case True
    then show ?thesis
      by (subst nat_digits.simps) (simp add: digit_char_props)
  next
    case False
    with "1" show ?thesis
      by (subst nat_digits.simps) (simp add: digit_char_props)
  qed
qed

lemma digits_value_snoc:
  "digits_value (ds @ [c]) = 10 * digits_value ds + (of_char c - 48)"
  by (simp add: digits_value_def)

lemma digits_value_nat_digits: "digits_value (nat_digits n) = int n"
proof (induction n rule: nat_digits.induct)
  case (1 n)
  show ?case
  proof (cases "n < 10")
    case True
    then show ?thesis
      by (subst nat_digits.simps) (simp add: digits_value_def digit_char_props)
  next
    case False
    then have "digits_value (nat_digits (n div 10)) = int (n div 10)"
      by (rule "1")
    with False show ?thesis
      by (subst nat_digits.simps)
        (simp add: digits_value_snoc digit_char_props zdiv_int zmod_int)
  qed
qed

lemma is_digit_not_sign: "is_digit c \<Longrightarrow> c \<noteq> CHR ''-'' \<and> c \<noteq> CHR ''+''"
  by (auto simp: is_digit_def)

lemma nat_digits_no_dash: "dash \<notin> set (nat_digits n)"
  using nat_digits_is_digit [of n] is_digit_not_sign
  by (auto simp: list_all_iff dash_def)

lemma nat_digits_hd: "hd (nat_digits n) \<noteq> CHR ''-'' \<and> hd (nat_digits n) \<noteq> CHR ''+''"
proof -
  have "hd (nat_digits n) \<in> set (nat_digits n)"
    by (simp add: nat_digits_nonempty)
  then have "is_digit (hd (nat_digits n))"
    using nat_digits_is_digit [of n] by (simp add: list_all_iff)
  then show ?thesis
    by (rule is_digit_not_sign)
qed

lemma digits_value_nonneg:
  assumes "list_all is_digit ds" and "0 \<le> a"
  shows "0 \<le> foldl (\<lambda>a c. 10 * a + (of_char c - 48)) (a::int) ds"
  using assms
proof (induction ds arbitrary: a)
  case Nil
  then show ?case by simp
next
  case (Cons c ds)
  from Cons.prems(1) have "is_digit c" and rest: "list_all is_digit ds"
    by simp_all
  then have "(48::int) \<le> int (of_char c)"
    by (simp add: is_digit_def)
  then have "(48::int) \<le> of_char c"
    by (simp only: of_nat_of_char)
  with Cons.prems(2) have "0 \<le> 10 * a + (of_char c - 48)"
    by simp
  with rest show ?case
    by (simp add: Cons.IH)
qed

lemma ParseUint_nonneg:
  assumes "strconv_ParseUint s = Inr u"
  shows "0 \<le> u"
  using assms digits_value_nonneg [of s 0]
  by (auto simp: strconv_ParseUint_def digits_value_def split: if_splits)


text \<open>Parsing what was printed gives the number back, for every value that a
  non-negative \<^verbatim>\<open>int64\<close> can hold.\<close>

lemma ParseInt_FormatInt:
  assumes "0 \<le> i" and "i < 2 ^ 63"
  shows "strconv_ParseInt (strconv_FormatInt i) = Inr i"
proof -
  have v: "digits_value (nat_digits (nat i)) = i"
    using assms(1) by (simp add: digits_value_nat_digits)
  have u: "strconv_ParseUint (nat_digits (nat i)) = Inr i"
    using assms(2) v by (simp add: strconv_ParseUint_def nat_digits_nonempty nat_digits_is_digit)
  show ?thesis
    using assms u nat_digits_hd [of "nat i"]
    by (simp add: strconv_ParseInt_def strconv_FormatInt_def nat_digits_nonempty Let_def)
qed

lemma ParseInt_int64:
  assumes "strconv_ParseInt s = Inr n"
  shows "- (2 ^ 63) \<le> n \<and> n < 2 ^ 63"
  using assms ParseUint_nonneg [of s] ParseUint_nonneg [of "tl s"]
  by (auto simp: strconv_ParseInt_def Let_def split: if_splits sum.splits num_error.splits)

subsection \<open>Range headers\<close>

lemma strings_Split_no_sep: "sep \<notin> set s \<Longrightarrow> strings_Split sep s = [s]"
  by (induction s) auto

lemma strings_Split_two:
  assumes "sep \<notin> set a" and "sep \<notin> set b"
  shows "strings_Split sep (a @ sep # b) = [a, b]"
  using assms
  by (induction a) (auto simp: strings_Split_no_sep)

lemma FormatInt_no_dash:
  "0 \<le> i \<Longrightarrow> dash \<notin> set (strconv_FormatInt i) \<and> strconv_FormatInt i \<noteq> []"
  by (simp add: strconv_FormatInt_def nat_digits_no_dash nat_digits_nonempty)

lemma rangeBounds_nonneg:
  assumes "rangeBounds sz h = Inr (s, e)"
  shows "0 \<le> s"
  using assms
  by (auto simp: rangeBounds_def split: if_splits list.splits sum.splits)

lemma rangeBounds_nonempty:
  assumes "rangeBounds sz h = Inr (s, e)"
  shows "h \<noteq> []"
  using assms by (auto simp: rangeBounds_def strings_HasPrefix_def)


text \<open>Every header \<^verbatim>\<open>bytes=<start>-<end>\<close> and \<^verbatim>\<open>bytes=<start>-\<close> written with
  decimal numbers that fit an \<^verbatim>\<open>int64\<close> is read as these bounds.\<close>

lemma rangeBounds_decimal:
  assumes "0 \<le> s" and "s < 2 ^ 63" and "0 \<le> e" and "e < 2 ^ 63"
  shows "rangeBounds sz (''bytes='' @ strconv_FormatInt s @ ''-'' @ strconv_FormatInt e) =
           Inr (s, e)"
proof -
  have sp: "strings_Split dash (strconv_FormatInt s @ dash # strconv_FormatInt e) =
      [strconv_FormatInt s, strconv_FormatInt e]"
    using assms(1) assms(3) by (simp add: strings_Split_two FormatInt_no_dash)
  have "strings_TrimPrefix (''bytes='' @ strconv_FormatInt s @ ''-'' @ strconv_FormatInt e)
          ''bytes='' = strconv_FormatInt s @ dash # strconv_FormatInt e"
    by (simp add: strings_TrimPrefix_def strings_HasPrefix_def dash_def)
  then show ?thesis
    using assms sp
    by (simp add: rangeBounds_def ParseInt_FormatInt FormatInt_no_dash strings_HasPrefix_def)
qed

lemma rangeBounds_open_end:
  assumes "0 \<le> s" and "s < 2 ^ 63"
  shows "rangeBounds sz (''bytes='' @ strconv_FormatInt s @ ''-'') = Inr (s, sz - 1)"
proof -
  have sp: "strings_Split dash (strconv_FormatInt s @ dash # []) = [strconv_FormatInt s, []]"
    using assms(1) by (simp add: strings_Split_two FormatInt_no_dash)
  have "strings_TrimPrefix (''bytes='' @ strconv_FormatInt s @ ''-'') ''bytes='' =
      strconv_FormatInt s @ dash # []"
    by (simp add: strings_TrimPrefix_def strings_HasPrefix_def dash_def)
  then show ?thesis
    using assms sp
    by (simp add: rangeBounds_def ParseInt_FormatInt FormatInt_no_dash strings_HasPrefix_def)
qed

text \<open>The bounds read from a header are \<^verbatim>\<open>int64\<close> values, so that the handler's
  arithmetic on them and on the file size does not overflow.\<close>

lemma rangeBounds_int64:
  assumes "rangeBounds sz h = Inr (s, e)" and "0 \<le> sz" and "sz < 2 ^ 63"
  shows "0 \<le> s \<and> s < 2 ^ 63 \<and> - 1 \<le> e \<and> e < 2 ^ 63"
  using assms ParseInt_int64
  by (fastforce simp: rangeBounds_def split: if_splits list.splits sum.splits)

subsection \<open>Range requests\<close>

lemma limited_None [simp]: "limited None bs = bs"
  by (simp add: limited_def)

lemma handleRangeRequest_unsat:
  assumes "rangeBounds sz h = Inr (s, e)" and "s > e \<or> s \<ge> sz"
  shows "handleRangeRequest flt w file sz h =
           http_Error (Header_Set w ''Content-Range'' (''bytes */'' @ strconv_FormatInt sz))
             ''range not satisfiable'' 416"
  using assms by (auto simp: handleRangeRequest_def)

lemma handleRangeRequest_sat:
  assumes "rangeBounds sz h = Inr (s, e)" and "s \<le> e" and "s < sz"
  shows "handleRangeRequest flt w file sz h =
           Write
             (WriteHeader
                (Header_Set
                   (Header_Set w ''Content-Range''
                      (''bytes '' @ strconv_FormatInt s @ ''-'' @
                       strconv_FormatInt (min e (sz - 1)) @ ''/'' @ strconv_FormatInt sz))
                   ''Content-Length'' (strconv_FormatInt (min e (sz - 1) - s + 1)))
                206)
             (limited (body_read_limit flt)
                (take (nat (min e (sz - 1) - s + 1)) (drop (nat s) (fdata file))))"
proof -
  have m: "(if sz \<le> e then sz - 1 else e) = min e (sz - 1)"
    by (simp add: min_def)
  show ?thesis
    using assms
    by (simp add: handleRangeRequest_def Let_def m io_CopyN_def limited_def
          split: option.splits prod.splits)
qed

lemma handleRangeRequest_eq:
  "handleRangeRequest flt w file sz h =
     (case rangeBounds sz h of
        Inl msg \<Rightarrow> http_Error w msg 400
      | Inr (s, e) \<Rightarrow>
          if s > e \<or> s \<ge> sz then
            http_Error (Header_Set w ''Content-Range'' (''bytes */'' @ strconv_FormatInt sz))
              ''range not satisfiable'' 416
          else
            Write
              (WriteHeader
                 (Header_Set
                    (Header_Set w ''Content-Range''
                       (''bytes '' @ strconv_FormatInt s @ ''-'' @
                        strconv_FormatInt (min e (sz - 1)) @ ''/'' @ strconv_FormatInt sz))
                    ''Content-Length'' (strconv_FormatInt (min e (sz - 1) - s + 1)))
                 206)
              (limited (body_read_limit flt)
                 (take (nat (min e (sz - 1) - s + 1)) (drop (nat s) (fdata file)))))"
proof (cases "rangeBounds sz h")
  case (Inl msg)
  then show ?thesis
    by (simp add: handleRangeRequest_def)
next
  case (Inr se)
  obtain s e where se: "se = (s, e)"
    by (cases se)
  show ?thesis
  proof (cases "s > e \<or> s \<ge> sz")
    case True
    with Inr se handleRangeRequest_unsat [where sz = sz and h = h and s = s and e = e]
    show ?thesis
      by simp
  next
    case False
    then have "s \<le> e" and "s < sz"
      by simp_all
    with Inr se False
      handleRangeRequest_sat [where sz = sz and h = h and s = s and e = e]
    show ?thesis
      by simp
  qed
qed

text \<open>The response to a range request depends on the opened file only through its
  content: the handler seeks before it reads.\<close>

lemma handleRangeRequest_file:
  "fdata file = fdata file' \<Longrightarrow>
   handleRangeRequest flt w file sz h = handleRangeRequest flt w file' sz h"
  by (simp add: handleRangeRequest_eq split: sum.splits prod.splits)

lemma handleRangeRequest_Status:
  "Status (handleRangeRequest flt w file sz h) \<in> {206, 400, 416}"
  by (simp add: handleRangeRequest_eq split: sum.splits prod.splits)

lemma handleRangeRequest_Header:
  "k \<noteq> ''Content-Range'' \<Longrightarrow> k \<noteq> ''Content-Length'' \<Longrightarrow> k \<noteq> ''Content-Type'' \<Longrightarrow>
   k \<noteq> ''X-Content-Type-Options'' \<Longrightarrow>
   Header (handleRangeRequest flt w file sz h) k = Header w k"
  by (simp add: handleRangeRequest_eq split: sum.splits prod.splits)

text \<open>The response to a range request depends on the response under construction
  only through what is already in it, and on the file only through its content.\<close>

lemma handleRangeRequest_cong:
  assumes "fdata file = fdata file'"
    and "body_read_limit flt = body_read_limit flt'"
    and "Status w = Status w'" and "Body w = Body w'"
  shows "Status (handleRangeRequest flt w file sz h) =
           Status (handleRangeRequest flt' w' file' sz h) \<and>
         Body (handleRangeRequest flt w file sz h) =
           Body (handleRangeRequest flt' w' file' sz h)"
  using assms
  by (simp add: handleRangeRequest_eq split: sum.splits prod.splits)

lemma handleRangeRequest_Header_cong:
  assumes "Header w k = Header w' k"
  shows "Header (handleRangeRequest flt w file sz h) k =
           Header (handleRangeRequest flt' w' file' sz h) k"
  using assms
  by (auto simp: handleRangeRequest_eq split: sum.splits prod.splits)

subsection \<open>Retrieve and probe of an existing object\<close>

lemma Handler_GET:
  "Method r = ''GET'' \<Longrightarrow> Handler fs flt st r = (st, handleGet fs flt st r)"
  by (simp add: Handler_def)

lemma Handler_HEAD:
  "Method r = ''HEAD'' \<Longrightarrow> Handler fs flt st r = (st, handleHead fs flt st r)"
  by (simp add: Handler_def)

lemma digest_pass_ok_None:
  "digest_read_limit flt = None \<Longrightarrow> digest_pass_ok flt content"
  by (simp add: digest_pass_ok_def io_Copy_def)

lemma calculateETag_fresh:
  "calculateETag (digest_read_limit flt) \<lparr>fname = p, fdata = content, foffset = 0\<rparr> =
     (if digest_pass_ok flt content
      then (hex_EncodeToString (sha256_digest content),
            \<lparr>fname = p, fdata = content, foffset = 0\<rparr>)
      else ([], \<lparr>fname = p, fdata = content,
                 foffset = the (digest_read_limit flt)\<rparr>))"
  by (simp add: calculateETag_def digest_pass_ok_def io_Copy_def Let_def sha256_New_def
        hasher_Write_def hasher_Sum_def split: option.splits)

lemma Body_base_headers [simp]: "Body (base_headers flt content) = []"
  by (simp add: base_headers_def Let_def)

lemma Status_base_headers [simp]: "Status (base_headers flt content) = 0"
  by (simp add: base_headers_def Let_def new_response_def)

lemma ETag_base_headers:
  "Header (base_headers flt content) ''ETag'' =
     (if digest_pass_ok flt content
      then Some ([dquote] @ hex_EncodeToString (sha256_digest content) @ [dquote])
      else None)"
  by (simp add: base_headers_def Let_def)

lemma base_headers_other:
  "k \<noteq> ''ETag'' \<Longrightarrow>
   Header (base_headers flt content) k = Header (base_headers flt' content) k"
  by (simp add: base_headers_def Let_def)

lemma handleGet_existing:
  assumes "parsePath (URL_Path r) = Inr (bucket, key)"
    and "st (fullPath fs bucket key) = Some content"
    and "\<not> open_err flt" and "\<not> stat_err flt"
  shows "handleGet fs flt st r =
           (if Range_hdr r \<noteq> []
            then handleRangeRequest flt (base_headers flt content)
                   \<lparr>fname = fullPath fs bucket key, fdata = content, foffset = 0\<rparr>
                   (int (length content)) (Range_hdr r)
            else http_ServeContent flt (base_headers flt content)
                   \<lparr>fname = fullPath fs bucket key, fdata = content, foffset = 0\<rparr>)"
proof -
  have "handleRangeRequest flt w
          \<lparr>fname = fullPath fs bucket key, fdata = content,
           foffset = the (digest_read_limit flt)\<rparr> sz h =
        handleRangeRequest flt w
          \<lparr>fname = fullPath fs bucket key, fdata = content, foffset = 0\<rparr> sz h"
    for w sz h
    by (rule handleRangeRequest_file) simp
  with assms show ?thesis
    by (simp add: handleGet_def os_Open_def calculateETag_fresh base_headers_def Let_def
          etag_nonempty)
qed


lemma handleGet_range_sat:
  assumes "parsePath (URL_Path r) = Inr (bucket, key)"
    and "st (fullPath fs bucket key) = Some content"
    and "\<not> open_err flt" and "\<not> stat_err flt"
    and "rangeBounds (int (length content)) (Range_hdr r) = Inr (s, e)"
    and "s \<le> e" and "s < int (length content)"
  shows "handleGet fs flt st r =
           Write
             (WriteHeader
                (Header_Set
                   (Header_Set (base_headers flt content) ''Content-Range''
                      (''bytes '' @ strconv_FormatInt s @ ''-'' @
                       strconv_FormatInt (min e (int (length content) - 1)) @ ''/'' @
                       strconv_FormatInt (int (length content))))
                   ''Content-Length''
                   (strconv_FormatInt (min e (int (length content) - 1) - s + 1)))
                206)
             (limited (body_read_limit flt)
                (take (nat (min e (int (length content) - 1) - s + 1))
                   (drop (nat s) content)))"
proof -
  have "Range_hdr r \<noteq> []"
    using assms(5) by (rule rangeBounds_nonempty)
  then show ?thesis
    using assms by (simp add: handleGet_existing handleRangeRequest_sat)
qed

lemma handleGet_full:
  assumes "parsePath (URL_Path g) = Inr (bucket, key)"
    and "st (fullPath fs bucket key) = Some content"
    and "\<not> open_err flt" and "\<not> stat_err flt"
    and "Range_hdr g = []"
  shows "handleGet fs flt st g =
           Write
             (WriteHeader
                (Header_Set (base_headers flt content) ''Content-Length''
                   (strconv_FormatInt (int (length content))))
                200)
             (limited (body_read_limit flt) content)"
  using assms
  by (simp add: handleGet_existing http_ServeContent_def io_CopyN_def limited_def Let_def
        split: option.splits)

lemma handleHead_existing:
  assumes "parsePath (URL_Path r) = Inr (bucket, key)"
    and "st (fullPath fs bucket key) = Some content"
    and "\<not> open_err flt" and "\<not> stat_err flt"
  shows "handleHead fs flt st r = WriteHeader (base_headers flt content) 200"
  using assms
  by (simp add: handleHead_def os_Open_def calculateETag_fresh base_headers_def Let_def
        etag_nonempty)

subsection \<open>The copy of a store request\<close>

lemma room_arith: "((lp::nat) \<le> a - lc) = (lc + lp \<le> a \<or> lp = 0)"
  by arith

lemma file_Write_result:
  assumes "st path = Some cur"
  shows "file_Write lim path p st =
           (if fits lim (length cur + length p) \<or> p = []
            then (True, st(path \<mapsto> cur @ p))
            else (False, st(path \<mapsto> cur @ take (the lim - length cur) p)))"
proof (cases lim)
  case None
  with assms show ?thesis
    by (simp add: file_Write_def fits_def)
next
  case (Some a)
  with assms show ?thesis
    by (auto simp: file_Write_def fits_def Let_def room_arith)
qed

lemma fits_mono: "fits lim (k + j) \<Longrightarrow> fits lim k"
  by (cases lim) (simp_all add: fits_def)

lemma fits_None [simp]: "fits None k"
  by (simp add: fits_def)

lemma copy_chunks_fst:
  assumes "st path = Some cur" and "fits lim (length cur)"
  shows "fst (copy_chunks lim path e cs st h) =
           (\<not> e \<and> fits lim (length cur + length (concat cs)))"
  using assms
proof (induction cs arbitrary: st cur h)
  case Nil
  then show ?case by simp
next
  case (Cons c cs)
  show ?case
  proof (cases "fits lim (length cur + length c) \<or> c = []")
    case True
    with Cons.prems(2) have f: "fits lim (length (cur @ c))"
      by auto
    have u: "(st(path \<mapsto> cur @ c)) path = Some (cur @ c)"
      by simp
    have "fst (copy_chunks lim path e cs (st(path \<mapsto> cur @ c)) (hasher_Write h c)) =
        (\<not> e \<and> fits lim (length (cur @ c) + length (concat cs)))"
      using u f by (rule Cons.IH)
    with True Cons.prems(1) show ?thesis
      by (simp add: file_Write_result add.assoc)
  next
    case False
    then have "\<not> fits lim (length cur + (length c + length (concat cs)))"
      using fits_mono [of lim "length cur + length c" "length (concat cs)"]
      by (auto simp: add.assoc)
    with False Cons.prems(1) show ?thesis
      by (simp add: file_Write_result)
  qed
qed

lemma copy_chunks_ok:
  assumes "st path = Some cur" and "fst (copy_chunks lim path e cs st h)"
  shows "snd (copy_chunks lim path e cs st h) =
           (st(path \<mapsto> cur @ concat cs), h @ concat cs)"
  using assms
proof (induction cs arbitrary: st cur h)
  case Nil
  then show ?case
    by (simp add: fun_upd_idem)
next
  case (Cons c cs)
  from Cons.prems have w: "fits lim (length cur + length c) \<or> c = []"
    by (auto simp: file_Write_result split: if_splits)
  have u: "(st(path \<mapsto> cur @ c)) path = Some (cur @ c)"
    by simp
  from w Cons.prems have
    "fst (copy_chunks lim path e cs (st(path \<mapsto> cur @ c)) (hasher_Write h c))"
    by (simp add: file_Write_result)
  with u have "snd (copy_chunks lim path e cs (st(path \<mapsto> cur @ c)) (hasher_Write h c)) =
      ((st(path \<mapsto> cur @ c))(path \<mapsto> (cur @ c) @ concat cs),
       hasher_Write h c @ concat cs)"
    by (rule Cons.IH)
  with w Cons.prems(1) show ?case
    by (auto simp: file_Write_result hasher_Write_def intro!: ext)
qed

lemma copy_chunks_frame:
  "(fst (snd (copy_chunks lim path e cs st h)))(path := None) = st(path := None)"
proof (induction cs arbitrary: st h)
  case Nil
  then show ?case by simp
next
  case (Cons c cs)
  show ?case
    using Cons.IH
    by (auto simp: file_Write_def Let_def split: prod.splits bool.splits)
qed

lemma os_Remove_snd: "snd (os_Remove e st p) = (if e then st else st(p := None))"
  by (cases "st p") (auto simp: os_Remove_def)

lemma Handler_PUT:
  "Method r = ''PUT'' \<Longrightarrow> Handler fs flt st r = handlePut fs flt st r"
  by (simp add: Handler_def)

lemma handlePut_result:
  assumes "parsePath (URL_Path r) = Inr (bucket, key)"
    and "\<not> mkdirall_err flt" and "\<not> create_err flt"
  shows "handlePut fs flt st r =
           (if \<not> Body_err r \<and> fits (write_limit flt) (length (concat (Body_chunks r)))
            then (st(fullPath fs bucket key \<mapsto> concat (Body_chunks r)),
                  Write
                    (WriteHeader
                       (Header_Set new_response ''Content-Type'' ''application/json'') 200)
                    (json_Encode_etag
                       (hex_EncodeToString (sha256_digest (concat (Body_chunks r))))))
            else (if remove_err flt
                  then fst (snd (copy_chunks (write_limit flt) (fullPath fs bucket key)
                                   (Body_err r) (Body_chunks r)
                                   (os_Create st (fullPath fs bucket key)) sha256_New))
                  else st(fullPath fs bucket key := None),
                  http_Error new_response ''failed to write file'' 500))"
proof -
  let ?path = "fullPath fs bucket key"
  let ?c = "copy_chunks (write_limit flt) ?path (Body_err r) (Body_chunks r)
              (os_Create st ?path) sha256_New"
  have cr: "os_Create st ?path ?path = Some []"
    by (simp add: os_Create_def)
  have f0: "fits (write_limit flt) (length ([]::bytes))"
    by (cases "write_limit flt") (simp_all add: fits_def)
  have ok: "fst ?c =
      (\<not> Body_err r \<and> fits (write_limit flt) (length (concat (Body_chunks r))))"
    using copy_chunks_fst [where st = "os_Create st ?path" and path = ?path, OF cr f0]
    by simp
  show ?thesis
  proof (cases "fst ?c")
    case True
    from copy_chunks_ok [where st = "os_Create st ?path" and path = ?path, OF cr True]
    have "?c = (True, st(?path \<mapsto> concat (Body_chunks r)), concat (Body_chunks r))"
      using True by (simp add: os_Create_def sha256_New_def prod_eq_iff)
    with True ok assms show ?thesis
      by (simp add: handlePut_def Let_def hasher_Sum_def)
  next
    case False
    obtain st' h' where c: "?c = (False, st', h')"
      using False by (cases ?c) auto
    have "st'(?path := None) = (os_Create st ?path)(?path := None)"
      using copy_chunks_frame [of "write_limit flt" ?path "Body_err r" "Body_chunks r"
          "os_Create st ?path" sha256_New] c
      by simp
    then have "snd (os_Remove (remove_err flt) st' ?path) =
        (if remove_err flt then st' else st(?path := None))"
      by (simp add: os_Remove_snd os_Create_def)
    with False ok assms c show ?thesis
      by (auto simp: handlePut_def Let_def)
  qed
qed

lemma handlePut_200:
  assumes "parsePath (URL_Path r) = Inr (bucket, key)"
    and "Status (snd (handlePut fs flt st r)) = 200"
  shows "handlePut fs flt st r =
           (st(fullPath fs bucket key \<mapsto> concat (Body_chunks r)),
            Write
              (WriteHeader
                 (Header_Set new_response ''Content-Type'' ''application/json'') 200)
              (json_Encode_etag
                 (hex_EncodeToString (sha256_digest (concat (Body_chunks r))))))"
proof -
  have 1: "\<not> mkdirall_err flt"
    using assms by (auto simp: handlePut_def Let_def)
  have 2: "\<not> create_err flt"
    using assms 1 by (auto simp: handlePut_def Let_def)
  show ?thesis
    using assms(2) handlePut_result [OF assms(1) 1 2, of fs st]
    by (auto split: if_splits)
qed

subsection \<open>The filesystem states of a store request\<close>

lemma copy_states_last:
  "fst (snd (copy_chunks lim path e cs st h)) = last (st # copy_states lim path cs st)"
proof (induction cs arbitrary: st h)
  case Nil
  then show ?case by simp
next
  case (Cons c cs)
  show ?case
    using Cons.IH
    by (auto split: prod.splits bool.splits)
qed

lemma length_copy_states_None: "length (copy_states None path cs st) = length cs"
  by (induction cs arbitrary: st) (simp_all add: file_Write_def)

lemma copy_states_nth:
  assumes "st0 path = Some cur" and "k \<le> length cs"
  shows "(st0 # copy_states None path cs st0) ! k = st0(path \<mapsto> cur @ concat (take k cs))"
  using assms
proof (induction cs arbitrary: st0 cur k)
  case Nil
  then show ?case
    by (simp add: fun_upd_idem)
next
  case (Cons c cs)
  show ?case
  proof (cases k)
    case 0
    with Cons.prems(1) show ?thesis
      by (simp add: fun_upd_idem)
  next
    case (Suc j)
    let ?st1 = "st0(path \<mapsto> cur @ c)"
    have u: "?st1 path = Some (cur @ c)"
      by simp
    have j: "j \<le> length cs"
      using Cons.prems(2) Suc by simp
    from u j have "(?st1 # copy_states None path cs ?st1) ! j =
        ?st1(path \<mapsto> (cur @ c) @ concat (take j cs))"
      by (rule Cons.IH)
    with Cons.prems(1) Suc show ?thesis
      by (simp add: file_Write_def)
  qed
qed

lemma handlePut_states_nth:
  assumes "parsePath (URL_Path r) = Inr (bucket, key)"
    and "\<not> mkdirall_err flt" and "\<not> create_err flt"
    and "write_limit flt = None"
    and "k \<le> length (Body_chunks r)"
  shows "handlePut_states fs flt st r ! k =
           st(fullPath fs bucket key \<mapsto> concat (take k (Body_chunks r)))"
proof -
  let ?path = "fullPath fs bucket key"
  let ?st0 = "os_Create st ?path"
  let ?sts = "?st0 # copy_states None ?path (Body_chunks r) ?st0"
  have cr: "?st0 ?path = Some []"
    by (simp add: os_Create_def)
  have n: "?sts ! k = ?st0(?path \<mapsto> [] @ concat (take k (Body_chunks r)))"
    using cr assms(5) by (rule copy_states_nth)
  have l: "k < length ?sts"
    using assms(5) by (simp add: length_copy_states_None)
  have "\<exists>tl. handlePut_states fs flt st r = ?sts @ tl"
    using assms(1) assms(2) assms(3) assms(4)
    by (auto simp: handlePut_states_def Let_def split: prod.splits bool.splits)
  then obtain tl where "handlePut_states fs flt st r = ?sts @ tl" ..
  with l have "handlePut_states fs flt st r ! k = ?sts ! k"
    by (metis nth_append)
  with n show ?thesis
    by (simp add: os_Create_def)
qed

lemma handlePut_states_last:
  "fst (handlePut fs flt st r) = last (st # handlePut_states fs flt st r)"
proof (cases "parsePath (URL_Path r)")
  case (Inl err)
  then show ?thesis
    by (simp add: handlePut_def handlePut_states_def)
next
  case (Inr bk)
  obtain bucket key where bk: "bk = (bucket, key)"
    by (cases bk)
  let ?path = "fullPath fs bucket key"
  let ?c = "copy_chunks (write_limit flt) ?path (Body_err r) (Body_chunks r)
              (os_Create st ?path) sha256_New"
  obtain ok st' h' where c: "?c = (ok, st', h')"
    by (cases ?c)
  have "st' = last (os_Create st ?path #
      copy_states (write_limit flt) ?path (Body_chunks r) (os_Create st ?path))"
    using copy_states_last [of "write_limit flt" ?path "Body_err r" "Body_chunks r"
        "os_Create st ?path" sha256_New] c
    by simp
  with Inr bk c show ?thesis
    by (cases ok) (simp_all add: handlePut_def handlePut_states_def Let_def)
qed

section \<open>Keys that climb out of the store root\<close>

text \<open>
  Claim C1 does not hold of the code: \<open>parsePath\<close> accepts a key with
  \<^verbatim>\<open>..\<close> segments and \<open>fullPath\<close> resolves it outside the store root.
  The request path \<^verbatim>\<open>/b/../../etc/passwd\<close> is parsed into the bucket \<^verbatim>\<open>b\<close>
  and the key \<^verbatim>\<open>../../etc/passwd\<close>; with the root \<^verbatim>\<open>./data\<close> the file path
  is \<^verbatim>\<open>etc/passwd\<close>, and a store request writes there with status 200.
\<close>

theorem traversal_escapes_root:
  "parsePath ''/b/../../etc/passwd'' = Inr (''b'', ''../../etc/passwd'') \<and>
   fullPath store0 ''b'' ''../../etc/passwd'' = ''etc/passwd'' \<and>
   Status (snd (Handler store0 no_faults Map.empty
                  (put_request ''/b/../../etc/passwd'' [''x''] False))) = 200 \<and>
   fst (Handler store0 no_faults Map.empty
          (put_request ''/b/../../etc/passwd'' [''x''] False)) =
     [''etc/passwd'' \<mapsto> ''x'']"
proof -
  let ?r = "put_request ''/b/../../etc/passwd'' [''x''] False"
  have p: "parsePath ''/b/../../etc/passwd'' = Inr (''b'', ''../../etc/passwd'')"
    by (simp add: path_defs)
  have f: "fullPath store0 ''b'' ''../../etc/passwd'' = ''etc/passwd''"
    by (simp add: path_defs store0_def)
  have 1: "parsePath (URL_Path ?r) = Inr (''b'', ''../../etc/passwd'')"
    by (simp add: put_hyps p)
  from handlePut_result [OF 1 put_hyps(5) put_hyps(6), of store0 Map.empty]
  show ?thesis
    by (simp add: p f Handler_PUT put_hyps)
qed

section \<open>Store and retrieve\<close>

text \<open>
  Claim C2.  When a store of a valid identity succeeds (status 200), its response body
  is the JSON object \<^verbatim>\<open>{"etag":"<digest>"}\<close> followed by a newline, where the
  digest is the hex SHA-256 of the request body; a retrieve of the same identity
  (without range header, and meeting no read error) returns status 200 and exactly the
  bytes of the request body, and its \<^verbatim>\<open>ETag\<close> header is that same digest
  between double quotes.  The character \<open>CHR 0x22\<close> is the double quote and
  \<open>CHR 0x0A\<close> the newline.
\<close>

theorem store_then_retrieve:
  assumes "Method r = ''PUT''"
    and "parsePath (URL_Path r) = Inr (bucket, key)"
    and "Status (snd (Handler fs flt st r)) = 200"
    and "Method g = ''GET''" and "parsePath (URL_Path g) = Inr (bucket, key)"
    and "Range_hdr g = []"
    and "\<not> open_err flt'" and "\<not> stat_err flt'"
    and "digest_read_limit flt' = None" and "body_read_limit flt' = None"
  shows "Body (snd (Handler fs flt st r)) =
           ''{'' @ [CHR 0x22] @ ''etag'' @ [CHR 0x22] @ '':'' @ [CHR 0x22] @
           hex_EncodeToString (sha256_digest (concat (Body_chunks r))) @
           [CHR 0x22] @ ''}'' @ [CHR 0x0A] \<and>
         Header (snd (Handler fs flt st r)) ''Content-Type'' = Some ''application/json'' \<and>
         Status (snd (Handler fs flt' (fst (Handler fs flt st r)) g)) = 200 \<and>
         Body (snd (Handler fs flt' (fst (Handler fs flt st r)) g)) =
           concat (Body_chunks r) \<and>
         Header (snd (Handler fs flt' (fst (Handler fs flt st r)) g)) ''ETag'' =
           Some ([CHR 0x22] @ hex_EncodeToString (sha256_digest (concat (Body_chunks r))) @
                 [CHR 0x22])"
proof -
  let ?content = "concat (Body_chunks r)"
  let ?st' = "st(fullPath fs bucket key \<mapsto> ?content)"
  have "Status (snd (handlePut fs flt st r)) = 200"
    using assms(1) assms(3) by (simp add: Handler_PUT)
  from handlePut_200 [OF assms(2) this]
  have put: "Handler fs flt st r =
      (?st', Write
               (WriteHeader
                  (Header_Set new_response ''Content-Type'' ''application/json'') 200)
               (json_Encode_etag (hex_EncodeToString (sha256_digest ?content))))"
    using assms(1) by (simp add: Handler_PUT)
  have p: "parsePath (URL_Path g) = Inr (bucket, key)"
    by (rule assms(5))
  have s: "?st' (fullPath fs bucket key) = Some ?content"
    by simp
  have get: "Handler fs flt' ?st' g =
      (?st', Write
               (WriteHeader
                  (Header_Set (base_headers flt' ?content) ''Content-Length''
                     (strconv_FormatInt (int (length ?content))))
                  200)
               (limited (body_read_limit flt') ?content))"
    using handleGet_full [where st = ?st' and fs = fs, OF p s assms(7) assms(8) assms(6)]
      assms(4)
    by (simp add: Handler_GET)
  have body: "Body (snd (Handler fs flt st r)) =
      ''{'' @ [CHR 0x22] @ ''etag'' @ [CHR 0x22] @ '':'' @ [CHR 0x22] @
      hex_EncodeToString (sha256_digest ?content) @ [CHR 0x22] @ ''}'' @ [CHR 0x0A]"
    by (simp add: put new_response_def json_Encode_etag_def dquote_def newline_def)
  have ctype: "Header (snd (Handler fs flt st r)) ''Content-Type'' =
      Some ''application/json''"
    by (simp add: put new_response_def)
  have rest: "Status (snd (Handler fs flt' (fst (Handler fs flt st r)) g)) = 200 \<and>
      Body (snd (Handler fs flt' (fst (Handler fs flt st r)) g)) = ?content \<and>
      Header (snd (Handler fs flt' (fst (Handler fs flt st r)) g)) ''ETag'' =
        Some ([CHR 0x22] @ hex_EncodeToString (sha256_digest ?content) @ [CHR 0x22])"
    using assms(9) assms(10)
    by (simp add: put get ETag_base_headers digest_pass_ok_None dquote_def)
  from body ctype rest show ?thesis
    by blast
qed

theorem store_then_retrieve_witness:
  "Body (snd (Handler store0 no_faults Map.empty
              (put_request ''/docs/readme.txt'' [''he'', ''llo''] False))) =
     ''{'' @ [CHR 0x22] @ ''etag'' @ [CHR 0x22] @ '':'' @ [CHR 0x22] @
     ''2cf24dba5fb0a30e26e83b2ac5b9e29e1b161e5c1fa7425e73043362938b9824'' @
     [CHR 0x22] @ ''}'' @ [CHR 0x0A] \<and>
   Header (snd (Handler store0 no_faults Map.empty
              (put_request ''/docs/readme.txt'' [''he'', ''llo''] False)))
     ''Content-Type'' = Some ''application/json'' \<and>
   Status (snd (Handler store0 no_faults
      (fst (Handler store0 no_faults Map.empty
              (put_request ''/docs/readme.txt'' [''he'', ''llo''] False)))
      (get_request ''/docs/readme.txt'' []))) = 200 \<and>
   Body (snd (Handler store0 no_faults
      (fst (Handler store0 no_faults Map.empty
              (put_request ''/docs/readme.txt'' [''he'', ''llo''] False)))
      (get_request ''/docs/readme.txt'' []))) = ''hello'' \<and>
   Header (snd (Handler store0 no_faults
      (fst (Handler store0 no_faults Map.empty
              (put_request ''/docs/readme.txt'' [''he'', ''llo''] False)))
      (get_request ''/docs/readme.txt'' []))) ''ETag'' =
     Some ([CHR 0x22] @
           ''2cf24dba5fb0a30e26e83b2ac5b9e29e1b161e5c1fa7425e73043362938b9824'' @
           [CHR 0x22])"
proof -
  let ?r = "put_request ''/docs/readme.txt'' [''he'', ''llo''] False"
  let ?g = "get_request ''/docs/readme.txt'' []"
  have 2: "parsePath (URL_Path ?r) = Inr (''docs'', ''readme.txt'')"
    by (simp add: put_hyps parsePath_readme)
  have 3: "Status (snd (Handler store0 no_faults Map.empty ?r)) = 200"
    using handlePut_result [OF 2 put_hyps(5) put_hyps(6), of store0 Map.empty]
    by (simp add: Handler_PUT put_hyps)
  have 5: "parsePath (URL_Path ?g) = Inr (''docs'', ''readme.txt'')"
    by (simp add: hello_hyps parsePath_readme)
  have c: "concat (Body_chunks ?r) = ''hello''"
    by (simp add: put_hyps)
  from store_then_retrieve [OF put_hyps(1) 2 3 hello_hyps(1) 5 hello_hyps(3)
      hello_hyps(5) hello_hyps(6) hello_hyps(8) hello_hyps(7)]
  show ?thesis
    unfolding c sha256_hello by simp
qed

text \<open>
  Claim C9.  A store with a valid path and an empty body (and no failure of
  \<^verbatim>\<open>os.MkdirAll\<close> or \<^verbatim>\<open>os.Create\<close>) succeeds with status 200, and its
  response body is the JSON object \<^verbatim>\<open>{"etag":"<digest>"}\<close> followed by a newline
  whose digest is the hex SHA-256 of the empty byte sequence,
  \<^verbatim>\<open>e3b0c44298fc1c149afbf4c8996fb92427ae41e4649b934ca495991b7852b855\<close>; a retrieve of
  that identity then returns status 200 with \<^verbatim>\<open>Content-Length\<close> 0 and an empty
  body.
\<close>

theorem empty_body_roundtrip:
  assumes "Method r = ''PUT''"
    and "parsePath (URL_Path r) = Inr (bucket, key)"
    and "\<not> mkdirall_err flt" and "\<not> create_err flt"
    and "concat (Body_chunks r) = []" and "\<not> Body_err r"
    and "Method g = ''GET''" and "parsePath (URL_Path g) = Inr (bucket, key)"
    and "Range_hdr g = []"
    and "\<not> open_err flt'" and "\<not> stat_err flt'"
  shows "Status (snd (Handler fs flt st r)) = 200 \<and>
         Body (snd (Handler fs flt st r)) =
           ''{'' @ [CHR 0x22] @ ''etag'' @ [CHR 0x22] @ '':'' @ [CHR 0x22] @
           ''e3b0c44298fc1c149afbf4c8996fb92427ae41e4649b934ca495991b7852b855'' @
           [CHR 0x22] @ ''}'' @ [CHR 0x0A] \<and>
         hex_EncodeToString (sha256_digest []) =
           ''e3b0c44298fc1c149afbf4c8996fb92427ae41e4649b934ca495991b7852b855'' \<and>
         Status (snd (Handler fs flt' (fst (Handler fs flt st r)) g)) = 200 \<and>
         Header (snd (Handler fs flt' (fst (Handler fs flt st r)) g)) ''Content-Length'' =
           Some ''0'' \<and>
         Body (snd (Handler fs flt' (fst (Handler fs flt st r)) g)) = []"
proof -
  let ?st' = "st(fullPath fs bucket key \<mapsto> [])"
  have f: "fits (write_limit flt) (length (concat (Body_chunks r)))"
    unfolding assms(5) by (cases "write_limit flt") (simp_all add: fits_def)
  have put: "Handler fs flt st r =
      (?st', Write
               (WriteHeader
                  (Header_Set new_response ''Content-Type'' ''application/json'') 200)
               (json_Encode_etag (hex_EncodeToString (sha256_digest []))))"
    using handlePut_result [OF assms(2) assms(3) assms(4), of fs st] f assms(1) assms(6)
    by (simp add: Handler_PUT assms(5))
  have p: "parsePath (URL_Path g) = Inr (bucket, key)"
    by (rule assms(8))
  have s: "?st' (fullPath fs bucket key) = Some []"
    by simp
  have get: "Handler fs flt' ?st' g =
      (?st', Write
               (WriteHeader
                  (Header_Set (base_headers flt' []) ''Content-Length''
                     (strconv_FormatInt (int (length ([]::bytes)))))
                  200)
               (limited (body_read_limit flt') []))"
    using handleGet_full [where st = ?st' and fs = fs, OF p s assms(10) assms(11) assms(9)]
      assms(7)
    by (simp add: Handler_GET)
  have body: "Body (snd (Handler fs flt st r)) =
      ''{'' @ [CHR 0x22] @ ''etag'' @ [CHR 0x22] @ '':'' @ [CHR 0x22] @
      ''e3b0c44298fc1c149afbf4c8996fb92427ae41e4649b934ca495991b7852b855'' @
      [CHR 0x22] @ ''}'' @ [CHR 0x0A]"
    unfolding put sha256_empty
    by (simp add: new_response_def json_Encode_etag_def dquote_def newline_def)
  have rest: "Status (snd (Handler fs flt st r)) = 200 \<and>
      Status (snd (Handler fs flt' (fst (Handler fs flt st r)) g)) = 200 \<and>
      Header (snd (Handler fs flt' (fst (Handler fs flt st r)) g)) ''Content-Length'' =
        Some ''0'' \<and>
      Body (snd (Handler fs flt' (fst (Handler fs flt st r)) g)) = []"
    by (simp add: put get new_response_def FormatInt_small limited_def split: option.splits)
  from body rest sha256_empty show ?thesis
    by blast
qed

theorem empty_body_roundtrip_witness:
  "Status (snd (Handler store0 no_faults hello_fs
             (put_request ''/docs/readme.txt'' [] False))) = 200 \<and>
   Body (snd (Handler store0 no_faults hello_fs
             (put_request ''/docs/readme.txt'' [] False))) =
     ''{'' @ [CHR 0x22] @ ''etag'' @ [CHR 0x22] @ '':'' @ [CHR 0x22] @
     ''e3b0c44298fc1c149afbf4c8996fb92427ae41e4649b934ca495991b7852b855'' @
     [CHR 0x22] @ ''}'' @ [CHR 0x0A] \<and>
   Status (snd (Handler store0 no_faults
      (fst (Handler store0 no_faults hello_fs (put_request ''/docs/readme.txt'' [] False)))
      (get_request ''/docs/readme.txt'' []))) = 200 \<and>
   Header (snd (Handler store0 no_faults
      (fst (Handler store0 no_faults hello_fs (put_request ''/docs/readme.txt'' [] False)))
      (get_request ''/docs/readme.txt'' []))) ''Content-Length'' = Some ''0'' \<and>
   Body (snd (Handler store0 no_faults
      (fst (Handler store0 no_faults hello_fs (put_request ''/docs/readme.txt'' [] False)))
      (get_request ''/docs/readme.txt'' []))) = []"
proof -
  let ?r = "put_request ''/docs/readme.txt'' [] False"
  let ?g = "get_request ''/docs/readme.txt'' []"
  have 2: "parsePath (URL_Path ?r) = Inr (''docs'', ''readme.txt'')"
    by (simp add: put_hyps parsePath_readme)
  have 5: "concat (Body_chunks ?r) = []" and 6: "\<not> Body_err ?r"
    by (simp_all add: put_hyps)
  have 8: "parsePath (URL_Path ?g) = Inr (''docs'', ''readme.txt'')"
    by (simp add: hello_hyps parsePath_readme)
  from empty_body_roundtrip [OF put_hyps(1) 2 put_hyps(5) put_hyps(6) 5 6
      hello_hyps(1) 8 hello_hyps(3) hello_hyps(5) hello_hyps(6)]
  show ?thesis
    by simp
qed

section \<open>A store whose copy fails\<close>




section \<open>Range requests with an empty start bound\<close>




section \<open>Range requests that cannot be satisfied\<close>



section \<open>Range requests that are served\<close>



text \<open>
  Claim C7.  A retrieve of an existing object with a range \<open>(start, end)\<close> within
  bounds returns status 206 and exactly the \<open>end - start + 1\<close> bytes of the
  content from offset \<open>start\<close> on, with \<^verbatim>\<open>Content-Length\<close> equal to
  \<open>end - start + 1\<close> and \<^verbatim>\<open>Content-Range\<close> equal to
  \<^verbatim>\<open>bytes <start>-<end>/<total>\<close>.
\<close>

theorem range_within_bounds:
  assumes "Method r = ''GET''"
    and "parsePath (URL_Path r) = Inr (bucket, key)"
    and "st (fullPath fs bucket key) = Some content"
    and "\<not> open_err flt" and "\<not> stat_err flt"
    and "body_read_limit flt = None"
    and "rangeBounds (int (length content)) (Range_hdr r) = Inr (start, end)"
    and "start \<le> end" and "end < int (length content)"
  shows "Status (snd (Handler fs flt st r)) = 206 \<and>
         Body (snd (Handler fs flt st r)) =
           take (nat (end - start + 1)) (drop (nat start) content) \<and>
         int (length (Body (snd (Handler fs flt st r)))) = end - start + 1 \<and>
         Header (snd (Handler fs flt st r)) ''Content-Length'' =
           Some (strconv_FormatInt (end - start + 1)) \<and>
         Header (snd (Handler fs flt st r)) ''Content-Range'' =
           Some (''bytes '' @ strconv_FormatInt start @ ''-'' @ strconv_FormatInt end @
                 ''/'' @ strconv_FormatInt (int (length content)))"
proof -
  have m: "min end (int (length content) - 1) = end"
    using assms(9) by simp
  have s0: "0 \<le> start"
    using assms(7) by (rule rangeBounds_nonneg)
  have lt: "start < int (length content)"
    using assms(8) assms(9) by simp
  have len: "int (length (take (nat (end - start + 1)) (drop (nat start) content))) =
      end - start + 1"
    using s0 assms(8) assms(9) by simp
  have "snd (Handler fs flt st r) = handleGet fs flt st r"
    using assms(1) by (simp add: Handler_GET)
  then show ?thesis
    using assms(6) len
      handleGet_range_sat [where st = st and fs = fs, OF assms(2) assms(3) assms(4) assms(5) assms(7) assms(8) lt]
    by (simp add: m)
qed

theorem range_within_bounds_witness:
  "Status (snd (Handler store0 no_faults hello_fs
             (get_request ''/docs/readme.txt'' ''bytes=1-3''))) = 206 \<and>
   Body (snd (Handler store0 no_faults hello_fs
             (get_request ''/docs/readme.txt'' ''bytes=1-3''))) = ''ell'' \<and>
   Header (snd (Handler store0 no_faults hello_fs
             (get_request ''/docs/readme.txt'' ''bytes=1-3''))) ''Content-Length'' =
     Some ''3'' \<and>
   Header (snd (Handler store0 no_faults hello_fs
             (get_request ''/docs/readme.txt'' ''bytes=1-3''))) ''Content-Range'' =
     Some ''bytes 1-3/5''"
proof -
  let ?r = "get_request ''/docs/readme.txt'' ''bytes=1-3''"
  have 2: "parsePath (URL_Path ?r) = Inr (''docs'', ''readme.txt'')"
    by (simp add: hello_hyps parsePath_readme)
  have 7: "rangeBounds (int (length ''hello'')) (Range_hdr ?r) = Inr (1, 3)"
    by (simp add: hello_hyps rangeBounds_1_3)
  have 8: "(1::int) \<le> 3" and 9: "(3::int) < int (length ''hello'')"
    by simp_all
  from range_within_bounds [where st = hello_fs and fs = store0,
      OF hello_hyps(1) 2 hello_hyps(4) hello_hyps(5) hello_hyps(6) hello_hyps(7) 7 8 9]
  show ?thesis
    by (simp add: FormatInt_small FormatInt_5)
qed

section \<open>The store writes in place\<close>

text \<open>
  Claim C8, as amended.  A store creates (or truncates) the destination at its final
  path and appends the body to it chunk by chunk; there is no temporary file and no
  rename.  As long as no write fails, the filesystem after the \<open>k\<close>-th write is
  the one before the store with the first \<open>k\<close> chunks at the final path, and a
  retrieve of the same identity served at that moment returns status 200 with those
  chunks as its body: it sees the whole content only after the last write.
\<close>

theorem store_writes_in_place:
  assumes "parsePath (URL_Path r) = Inr (bucket, key)"
    and "\<not> mkdirall_err flt" and "\<not> create_err flt"
    and "write_limit flt = None"
    and "k \<le> length (Body_chunks r)"
    and "Method g = ''GET''" and "parsePath (URL_Path g) = Inr (bucket, key)"
    and "Range_hdr g = []"
    and "\<not> open_err flt'" and "\<not> stat_err flt'" and "body_read_limit flt' = None"
  shows "handlePut_states fs flt st r ! k =
           st(fullPath fs bucket key \<mapsto> concat (take k (Body_chunks r))) \<and>
         Status (snd (Handler fs flt' (handlePut_states fs flt st r ! k) g)) = 200 \<and>
         Body (snd (Handler fs flt' (handlePut_states fs flt st r ! k) g)) =
           concat (take k (Body_chunks r))"
proof -
  let ?stk = "st(fullPath fs bucket key \<mapsto> concat (take k (Body_chunks r)))"
  have n: "handlePut_states fs flt st r ! k = ?stk"
    using assms(1) assms(2) assms(3) assms(4) assms(5) by (rule handlePut_states_nth)
  have p: "parsePath (URL_Path g) = Inr (bucket, key)"
    by (rule assms(7))
  have s: "?stk (fullPath fs bucket key) = Some (concat (take k (Body_chunks r)))"
    by simp
  from handleGet_full [where st = ?stk and fs = fs, OF p s assms(9) assms(10) assms(8)]
  show ?thesis
    using assms(6) assms(11) by (simp add: n Handler_GET)
qed

theorem store_writes_in_place_witness:
  "handlePut_states store0 no_faults hello_fs
      (put_request ''/docs/readme.txt'' [''by'', ''e''] False) ! 1 =
     hello_fs(''data/docs/readme.txt'' \<mapsto> ''by'') \<and>
   Status (snd (Handler store0 no_faults
      (handlePut_states store0 no_faults hello_fs
         (put_request ''/docs/readme.txt'' [''by'', ''e''] False) ! 1)
      (get_request ''/docs/readme.txt'' []))) = 200 \<and>
   Body (snd (Handler store0 no_faults
      (handlePut_states store0 no_faults hello_fs
         (put_request ''/docs/readme.txt'' [''by'', ''e''] False) ! 1)
      (get_request ''/docs/readme.txt'' []))) = ''by''"
proof -
  let ?r = "put_request ''/docs/readme.txt'' [''by'', ''e''] False"
  let ?g = "get_request ''/docs/readme.txt'' []"
  have 1: "parsePath (URL_Path ?r) = Inr (''docs'', ''readme.txt'')"
    by (simp add: put_hyps parsePath_readme)
  have 5: "1 \<le> length (Body_chunks ?r)"
    by (simp add: put_hyps)
  have 7: "parsePath (URL_Path ?g) = Inr (''docs'', ''readme.txt'')"
    by (simp add: hello_hyps parsePath_readme)
  from store_writes_in_place [where fs = store0 and st = hello_fs,
      OF 1 put_hyps(5) put_hyps(6) put_hyps(7) 5 hello_hyps(1) 7 hello_hyps(3)
        hello_hyps(5) hello_hyps(6) hello_hyps(7)]
  show ?thesis
    by (auto simp: put_hyps fullPath_readme)
qed

text \<open>
  The claim as stated fails: while \<^verbatim>\<open>hello\<close> is stored in the chunks
  \<^verbatim>\<open>he\<close> and \<^verbatim>\<open>llo\<close>, the final path holds \<^verbatim>\<open>he\<close> after the first
  write, and a retrieve served then returns status 200 with the body \<^verbatim>\<open>he\<close>.
\<close>

theorem partial_file_counterexample:
  "(handlePut_states store0 no_faults Map.empty
      (put_request ''/docs/readme.txt'' [''he'', ''llo''] False) ! 1)
     ''data/docs/readme.txt'' = Some ''he'' \<and>
   Status (snd (Handler store0 no_faults
      (handlePut_states store0 no_faults Map.empty
         (put_request ''/docs/readme.txt'' [''he'', ''llo''] False) ! 1)
      (get_request ''/docs/readme.txt'' []))) = 200 \<and>
   Body (snd (Handler store0 no_faults
      (handlePut_states store0 no_faults Map.empty
         (put_request ''/docs/readme.txt'' [''he'', ''llo''] False) ! 1)
      (get_request ''/docs/readme.txt'' []))) = ''he''"
proof -
  let ?r = "put_request ''/docs/readme.txt'' [''he'', ''llo''] False"
  let ?g = "get_request ''/docs/readme.txt'' []"
  let ?st1 = "Map.empty(''data/docs/readme.txt'' \<mapsto> ''he'')"
  have 1: "parsePath (URL_Path ?r) = Inr (''docs'', ''readme.txt'')"
    by (simp add: put_hyps parsePath_readme)
  have 5: "1 \<le> length (Body_chunks ?r)"
    by (simp add: put_hyps)
  have n: "handlePut_states store0 no_faults Map.empty ?r ! 1 = ?st1"
    using handlePut_states_nth [OF 1 put_hyps(5) put_hyps(6) put_hyps(7) 5,
        of store0 Map.empty]
    by (simp add: fullPath_readme put_hyps)
  have p: "parsePath (URL_Path ?g) = Inr (''docs'', ''readme.txt'')"
    by (simp add: hello_hyps parsePath_readme)
  have s: "?st1 (fullPath store0 ''docs'' ''readme.txt'') = Some ''he''"
    by (simp add: fullPath_readme)
  note n' = n [unfolded One_nat_def]
  from handleGet_full [where st = ?st1 and fs = store0 and flt = no_faults,
      OF p s hello_hyps(5) hello_hyps(6) hello_hyps(3)]
  show ?thesis
    by (simp add: n' Handler_GET hello_hyps)
qed

section \<open>A failing digest pass\<close>

text \<open>
  Claim C10, as amended.  For a retrieve or a probe of an existing object the
  \<^verbatim>\<open>ETag\<close> header is set if and only if the digest pass succeeds.  A failing
  digest pass changes nothing else: status, body and all other headers are those of
  the same request with a successful digest pass.  So the status is 200 for a probe
  and for a retrieve without range header, and 206, 400 or 416, as the range decides,
  for a ranged retrieve; it is never 500.
\<close>

theorem digest_failure_only_drops_etag:
  assumes "Method r = ''GET'' \<or> Method r = ''HEAD''"
    and "parsePath (URL_Path r) = Inr (bucket, key)"
    and "st (fullPath fs bucket key) = Some content"
    and "\<not> open_err flt" and "\<not> stat_err flt"
  shows "(Header (snd (Handler fs flt st r)) ''ETag'' \<noteq> None) =
           digest_pass_ok flt content \<and>
         Status (snd (Handler fs flt st r)) \<noteq> 500 \<and>
         (if Method r = ''HEAD'' \<or> Range_hdr r = []
          then Status (snd (Handler fs flt st r)) = 200
          else Status (snd (Handler fs flt st r)) \<in> {206, 400, 416}) \<and>
         Status (snd (Handler fs flt st r)) =
           Status (snd (Handler fs (flt\<lparr>digest_read_limit := None\<rparr>) st r)) \<and>
         Body (snd (Handler fs flt st r)) =
           Body (snd (Handler fs (flt\<lparr>digest_read_limit := None\<rparr>) st r)) \<and>
         (\<forall>k. k \<noteq> ''ETag'' \<longrightarrow>
            Header (snd (Handler fs flt st r)) k =
              Header (snd (Handler fs (flt\<lparr>digest_read_limit := None\<rparr>) st r)) k)"
proof -
  let ?flt0 = "flt\<lparr>digest_read_limit := None\<rparr>"
  have o: "\<not> open_err ?flt0" and s: "\<not> stat_err ?flt0"
    using assms(4) assms(5) by simp_all
  have b: "body_read_limit flt = body_read_limit ?flt0"
    by simp
  from assms(1) show ?thesis
  proof
    assume g: "Method r = ''GET''"
    then have nh: "Method r \<noteq> ''HEAD''"
      by simp
    note e = handleGet_existing [where st = st and fs = fs, OF assms(2) assms(3)]
    show ?thesis
    proof (cases "Range_hdr r = []")
      case True
      with g nh show ?thesis
        by (simp add: Handler_GET e [OF assms(4) assms(5)] e [OF o s]
              http_ServeContent_def io_CopyN_def ETag_base_headers Let_def
              base_headers_other split: option.splits)
    next
      case False
      let ?f = "\<lparr>fname = fullPath fs bucket key, fdata = content, foffset = 0\<rparr>"
      let ?sz = "int (length content)"
      have 1: "Header (handleRangeRequest flt (base_headers flt content) ?f ?sz
                  (Range_hdr r)) ''ETag'' = Header (base_headers flt content) ''ETag''"
        by (rule handleRangeRequest_Header) simp_all
      have 2: "Status (handleRangeRequest flt (base_headers flt content) ?f ?sz
                  (Range_hdr r)) \<in> {206, 400, 416}"
        by (rule handleRangeRequest_Status)
      have 3: "Status (handleRangeRequest flt (base_headers flt content) ?f ?sz
                  (Range_hdr r)) =
               Status (handleRangeRequest ?flt0 (base_headers ?flt0 content) ?f ?sz
                  (Range_hdr r)) \<and>
               Body (handleRangeRequest flt (base_headers flt content) ?f ?sz
                  (Range_hdr r)) =
               Body (handleRangeRequest ?flt0 (base_headers ?flt0 content) ?f ?sz
                  (Range_hdr r))"
        by (rule handleRangeRequest_cong) simp_all
      have 4: "k \<noteq> ''ETag'' \<Longrightarrow>
               Header (handleRangeRequest flt (base_headers flt content) ?f ?sz
                  (Range_hdr r)) k =
               Header (handleRangeRequest ?flt0 (base_headers ?flt0 content) ?f ?sz
                  (Range_hdr r)) k" for k
        by (rule handleRangeRequest_Header_cong) (rule base_headers_other)
      have w: "snd (Handler fs flt st r) =
          handleRangeRequest flt (base_headers flt content) ?f ?sz (Range_hdr r)"
        using False g by (simp add: Handler_GET e [OF assms(4) assms(5)])
      have w0: "snd (Handler fs ?flt0 st r) =
          handleRangeRequest ?flt0 (base_headers ?flt0 content) ?f ?sz (Range_hdr r)"
        using False g by (simp add: Handler_GET e [OF o s])
      have 5: "Status (handleRangeRequest flt (base_headers flt content) ?f ?sz
                  (Range_hdr r)) \<noteq> 500"
        using 2 by auto
      show ?thesis
        unfolding w w0 using False nh 1 2 3 4 5
        by (simp add: ETag_base_headers)
    qed
  next
    assume h: "Method r = ''HEAD''"
    then have ng: "Method r \<noteq> ''GET''" and np: "Method r \<noteq> ''PUT''"
      by simp_all
    note e = handleHead_existing [where st = st and fs = fs, OF assms(2) assms(3)]
    from h ng np show ?thesis
      by (simp add: Handler_def e [OF assms(4) assms(5)] e [OF o s] ETag_base_headers
            base_headers_other)
  qed
qed

theorem digest_failure_only_drops_etag_witness:
  "Header (snd (Handler store0 (no_faults\<lparr>digest_read_limit := Some 2\<rparr>) hello_fs
             (head_request ''/docs/readme.txt''))) ''ETag'' = None \<and>
   Status (snd (Handler store0 (no_faults\<lparr>digest_read_limit := Some 2\<rparr>) hello_fs
             (head_request ''/docs/readme.txt''))) = 200"
proof -
  let ?r = "head_request ''/docs/readme.txt''"
  let ?flt = "no_faults\<lparr>digest_read_limit := Some 2\<rparr>"
  have 1: "Method ?r = ''GET'' \<or> Method ?r = ''HEAD''"
    by (simp add: head_request_def)
  have 2: "parsePath (URL_Path ?r) = Inr (''docs'', ''readme.txt'')"
    by (simp add: head_request_def parsePath_readme)
  have 4: "\<not> open_err ?flt" and 5: "\<not> stat_err ?flt"
    by (simp_all add: no_faults_def)
  have m: "Method ?r = ''HEAD''"
    by (simp add: head_request_def)
  from digest_failure_only_drops_etag [where st = hello_fs and fs = store0,
      OF 1 2 hello_hyps(4) 4 5]
  show ?thesis
    using digest_fails_hello m by simp
qed

text \<open>
  The claim as stated fails: a retrieve with the range header \<^verbatim>\<open>bytes=0-1\<close>
  whose digest pass fails is answered with status 206, not 200 (and without
  \<^verbatim>\<open>ETag\<close>).
\<close>

theorem ranged_digest_failure_counterexample:
  "\<not> digest_pass_ok (no_faults\<lparr>digest_read_limit := Some 2\<rparr>) ''hello'' \<and>
   Status (snd (Handler store0 (no_faults\<lparr>digest_read_limit := Some 2\<rparr>) hello_fs
             (get_request ''/docs/readme.txt'' ''bytes=0-1''))) = 206 \<and>
   Header (snd (Handler store0 (no_faults\<lparr>digest_read_limit := Some 2\<rparr>) hello_fs
             (get_request ''/docs/readme.txt'' ''bytes=0-1''))) ''ETag'' = None \<and>
   Body (snd (Handler store0 (no_faults\<lparr>digest_read_limit := Some 2\<rparr>) hello_fs
             (get_request ''/docs/readme.txt'' ''bytes=0-1''))) = ''he''"
proof -
  let ?r = "get_request ''/docs/readme.txt'' ''bytes=0-1''"
  let ?flt = "no_faults\<lparr>digest_read_limit := Some 2\<rparr>"
  have 1: "parsePath (URL_Path ?r) = Inr (''docs'', ''readme.txt'')"
    by (simp add: hello_hyps parsePath_readme)
  have 3: "\<not> open_err ?flt" and 4: "\<not> stat_err ?flt" and b: "body_read_limit ?flt = None"
    by (simp_all add: no_faults_def)
  have 5: "rangeBounds (int (length ''hello'')) (Range_hdr ?r) = Inr (0, 1)"
    by (simp add: hello_hyps rangeBounds_0_1)
  have 6: "(0::int) \<le> 1" and 7: "(0::int) < int (length ''hello'')"
    by simp_all
  from handleGet_range_sat [where st = hello_fs and fs = store0 and flt = ?flt,
      OF 1 hello_hyps(4) 3 4 5 6 7]
  show ?thesis
    using digest_fails_hello
    by (simp add: Handler_GET hello_hyps b ETag_base_headers)
qed

end
